theory Spec2Isabelle
  imports Main "HOL-Library.Product_Lexorder" "HOL-Library.Multiset"
begin

section \<open>Timestamps\<close>

text \<open>
  The program keeps every instant as a naive \<^verbatim>\<open>datetime.datetime\<close> (no time zone).
  Such a value is its seven calendar fields.  Python compares two naive values by comparing
  the tuples \<^verbatim>\<open>(year, month, day, hour, minute, second, microsecond)\<close>
  lexicographically; the order on \<open>datetime\<close> below is that comparison.
\<close>

datatype datetime =
  Datetime (year: nat) (month: nat) (day: nat) (hour: nat) (minute: nat) (second: nat)
    (microsecond: nat)

definition dt_tuple :: "datetime \<Rightarrow> nat \<times> nat \<times> nat \<times> nat \<times> nat \<times> nat \<times> nat" where
  "dt_tuple d = (year d, month d, day d, hour d, minute d, second d, microsecond d)"

instantiation datetime :: linorder
begin

definition less_eq_datetime :: "datetime \<Rightarrow> datetime \<Rightarrow> bool" where
  "less_eq_datetime a b \<longleftrightarrow> dt_tuple a \<le> dt_tuple b"

definition less_datetime :: "datetime \<Rightarrow> datetime \<Rightarrow> bool" where
  "less_datetime a b \<longleftrightarrow> dt_tuple a < dt_tuple b"

instance
proof
  fix a b c :: datetime
  show "a < b \<longleftrightarrow> a \<le> b \<and> \<not> b \<le> a"
    unfolding less_eq_datetime_def less_datetime_def by (rule less_le_not_le)
  show "a \<le> a"
    unfolding less_eq_datetime_def by simp
  show "a \<le> b \<Longrightarrow> b \<le> c \<Longrightarrow> a \<le> c"
    unfolding less_eq_datetime_def by (rule order_trans)
  show "a \<le> b \<Longrightarrow> b \<le> a \<Longrightarrow> a = b"
  proof -
    assume "a \<le> b" and "b \<le> a"
    then have "dt_tuple a = dt_tuple b"
      unfolding less_eq_datetime_def by (rule antisym)
    then show "a = b"
      by (simp add: dt_tuple_def datetime.expand)
  qed
  show "a \<le> b \<or> b \<le> a"
    unfolding less_eq_datetime_def by (rule linear)
qed

end

section \<open>Appointments\<close>

text \<open>
  The values a JSON document can hold, as \<^verbatim>\<open>json.load\<close> returns them.  A Python
  \<^verbatim>\<open>dict\<close> is its list of items in insertion order, with distinct keys.  The program never
  computes with a float, so one is kept as the literal that denotes it.
\<close>

datatype json =
  JNull
| JBool bool
| JInt int
| JFloat string
| JString string
| JArray "json list"
| JObject "(string \<times> json) list"

text \<open>
  \<^verbatim>\<open>class Appointment\<close>.  The annotations say \<^verbatim>\<open>str\<close> for the four text attributes, but
  Python does not enforce them and \<^verbatim>\<open>from_dict\<close> stores whatever value the file holds, so
  each is a value; a \<^verbatim>\<open>str\<close> is \<open>JString s\<close>.  The attribute \<^verbatim>\<open>id\<close> is \<open>apt_id\<close> here.
\<close>

record appointment =
  apt_id :: json
  title :: json
  start_time :: datetime
  end_time :: datetime
  description :: json
  location :: json

text \<open>\<^verbatim>\<open>Appointment.overlaps_with\<close>\<close>

definition overlaps_with :: "appointment \<Rightarrow> appointment \<Rightarrow> bool" where
  "overlaps_with self other \<longleftrightarrow>
     start_time self < end_time other \<and> end_time self > start_time other"

section \<open>Exceptions\<close>

text \<open>
  The exception classes that the modelled code can raise or see.  A computation that may raise
  returns \<open>exn + 'a\<close>, with \<open>Inl\<close> for the exception; messages are not kept,
  but \<open>KeyError\<close> carries the missing key.
\<close>

datatype exn =
  JSONDecodeError
| KeyError string
| ValueError
| TypeError
| AttributeError
| OverflowError
| OSError
| UnicodeDecodeError

definition and_then :: "exn + 'a \<Rightarrow> ('a \<Rightarrow> exn + 'b) \<Rightarrow> exn + 'b" where
  "and_then m f = (case m of Inl e \<Rightarrow> Inl e | Inr x \<Rightarrow> f x)"

section \<open>The calendar of the \<^verbatim>\<open>datetime\<close> module\<close>

text \<open>
  The proleptic Gregorian calendar as the standard library computes it: the helpers
  \<^verbatim>\<open>_is_leap\<close>, \<^verbatim>\<open>_days_in_month\<close>, \<^verbatim>\<open>_days_before_year\<close>, \<^verbatim>\<open>_days_before_month\<close>,
  \<^verbatim>\<open>_ymd2ord\<close> and \<^verbatim>\<open>_ord2ymd\<close>, with their tables.  Index 0 of a table is never read.
\<close>

definition is_leap :: "nat \<Rightarrow> bool" where
  "is_leap y \<longleftrightarrow> y mod 4 = 0 \<and> (y mod 100 \<noteq> 0 \<or> y mod 400 = 0)"

definition DAYS_IN_MONTH :: "nat list" where
  "DAYS_IN_MONTH = [0, 31, 28, 31, 30, 31, 30, 31, 31, 30, 31, 30, 31]"

definition DAYS_BEFORE_MONTH :: "nat list" where
  "DAYS_BEFORE_MONTH = [0, 0, 31, 59, 90, 120, 151, 181, 212, 243, 273, 304, 334]"

definition days_in_month :: "nat \<Rightarrow> nat \<Rightarrow> nat" where
  "days_in_month y m = (if m = 2 \<and> is_leap y then 29 else DAYS_IN_MONTH ! m)"

definition days_before_year :: "nat \<Rightarrow> nat" where
  "days_before_year y = (let p = y - 1 in p * 365 + p div 4 - p div 100 + p div 400)"

definition days_before_month :: "nat \<Rightarrow> nat \<Rightarrow> nat" where
  "days_before_month y m = DAYS_BEFORE_MONTH ! m + (if m > 2 \<and> is_leap y then 1 else 0)"

definition ymd2ord :: "nat \<Rightarrow> nat \<Rightarrow> nat \<Rightarrow> nat" where
  "ymd2ord y m d = days_before_year y + days_before_month y m + d"

definition MAXORDINAL :: nat where
  "MAXORDINAL = 3652059"

definition DI400Y :: nat where "DI400Y = 146097"
definition DI100Y :: nat where "DI100Y = 36524"
definition DI4Y :: nat where "DI4Y = 1461"

text \<open>
  \<^verbatim>\<open>_ord2ymd\<close>, in two parts.  The second part, \<open>month_day\<close>, is the end of the Python
  function: from the offset \<open>nd\<close> of the day in its year it estimates the month, steps back
  when the estimate is one too large, and returns the month and the day.
\<close>

definition month_day :: "bool \<Rightarrow> nat \<Rightarrow> nat \<times> nat" where
  "month_day leapyear nd =
     (let m = (nd + 50) div 32;
          preceding = DAYS_BEFORE_MONTH ! m + (if m > 2 \<and> leapyear then 1 else 0)
      in if preceding > nd
         then (m - 1,
               nd - (preceding -
                      (DAYS_IN_MONTH ! (m - 1) + (if m - 1 = 2 \<and> leapyear then 1 else 0)))
                 + 1)
         else (m, nd - preceding + 1))"

definition ord2ymd :: "nat \<Rightarrow> nat \<times> nat \<times> nat" where
  "ord2ymd ordinal =
     (let n = ordinal - 1;
          n400 = n div DI400Y; na = n mod DI400Y;
          n100 = na div DI100Y; nb = na mod DI100Y;
          n4 = nb div DI4Y; nc = nb mod DI4Y;
          n1 = nc div 365; nd = nc mod 365;
          y = n400 * 400 + 1 + n100 * 100 + n4 * 4 + n1
      in if n1 = 4 \<or> n100 = 4 then (y - 1, 12, 31)
         else
           let leapyear = (n1 = 3 \<and> (n4 \<noteq> 24 \<or> n100 = 3))
           in (case month_day leapyear nd of (m, d) \<Rightarrow> (y, m, d)))"

text \<open>
  The range checks of the \<^verbatim>\<open>datetime\<close> constructor.  Every value of the Python type passes
  them; the constructor raises \<^verbatim>\<open>ValueError\<close> otherwise.
\<close>

definition valid_datetime :: "datetime \<Rightarrow> bool" where
  "valid_datetime d \<longleftrightarrow>
     1 \<le> year d \<and> year d \<le> 9999 \<and> 1 \<le> month d \<and> month d \<le> 12 \<and>
     1 \<le> day d \<and> day d \<le> days_in_month (year d) (month d) \<and>
     hour d \<le> 23 \<and> minute d \<le> 59 \<and> second d \<le> 59 \<and> microsecond d \<le> 999999"

definition mk_datetime ::
  "nat \<Rightarrow> nat \<Rightarrow> nat \<Rightarrow> nat \<Rightarrow> nat \<Rightarrow> nat \<Rightarrow> nat \<Rightarrow> exn + datetime" where
  "mk_datetime y m d h mi s us =
     (if valid_datetime (Datetime y m d h mi s us) then Inr (Datetime y m d h mi s us)
      else Inl ValueError)"

definition toordinal :: "datetime \<Rightarrow> nat" where
  "toordinal d = ymd2ord (year d) (month d) (day d)"

text \<open>
  \<^verbatim>\<open>timedelta(days=n)\<close>, the only kind of duration the program builds: the constructor
  refuses more than 999999999 days either way.  The duration is its number of days.
\<close>

definition timedelta :: "int \<Rightarrow> exn + int" where
  "timedelta days = (if \<bar>days\<bar> > 999999999 then Inl OverflowError else Inr days)"

text \<open>
  \<^verbatim>\<open>datetime.__add__\<close> for a duration of whole days: the ordinal of the date moves by that
  many days and the time of day stays; a result outside the years 1 to 9999 raises
  \<^verbatim>\<open>OverflowError\<close>.
\<close>

definition datetime_add :: "datetime \<Rightarrow> int \<Rightarrow> exn + datetime" where
  "datetime_add d delta =
     (let days = int (toordinal d) + delta
      in if 0 < days \<and> days \<le> int MAXORDINAL
         then (case ord2ymd (nat days) of
                 (y, m, dd) \<Rightarrow> Inr (Datetime y m dd (hour d) (minute d) (second d) (microsecond d)))
         else Inl OverflowError)"

text \<open>\<^verbatim>\<open>d.replace(hour=0, minute=0, second=0, microsecond=0)\<close>\<close>

definition replace_midnight :: "datetime \<Rightarrow> datetime" where
  "replace_midnight d = Datetime (year d) (month d) (day d) 0 0 0 0"

text \<open>\<^verbatim>\<open>datetime.combine(d.date(), t.time())\<close>\<close>

definition combine :: "datetime \<Rightarrow> datetime \<Rightarrow> datetime" where
  "combine d t = Datetime (year d) (month d) (day d) (hour t) (minute t) (second t) (microsecond t)"

section \<open>Timestamps as text\<close>

text \<open>
  Decimal text of a natural number (\<^verbatim>\<open>%d\<close>) and its zero-padded form of a minimum width
  (\<^verbatim>\<open>%04d\<close>, \<^verbatim>\<open>{:02d}\<close>): padding never cuts digits off.  Strings here are ASCII.
\<close>

definition digit_char :: "nat \<Rightarrow> char" where
  "digit_char n = ''0123456789'' ! n"

definition is_digit :: "char \<Rightarrow> bool" where
  "is_digit c \<longleftrightarrow> 48 \<le> (of_char c :: nat) \<and> (of_char c :: nat) \<le> 57"

definition digit_val :: "char \<Rightarrow> nat" where
  "digit_val c = of_char c - 48"

fun digits :: "nat \<Rightarrow> string" where
  "digits n = (if n < 10 then [digit_char n] else digits (n div 10) @ [digit_char (n mod 10)])"

declare digits.simps [simp del]

definition zpad :: "nat \<Rightarrow> nat \<Rightarrow> string" where
  "zpad w n = replicate (w - length (digits n)) (CHR ''0'') @ digits n"

text \<open>
  \<^verbatim>\<open>datetime.isoformat()\<close> of a naive value, with the default separator and
  \<^verbatim>\<open>timespec='auto'\<close>: the fraction is written only when the microsecond is not zero.
\<close>

definition format_time :: "nat \<Rightarrow> nat \<Rightarrow> nat \<Rightarrow> nat \<Rightarrow> string" where
  "format_time hh mm ss us =
     zpad 2 hh @ '':'' @ zpad 2 mm @ '':'' @ zpad 2 ss @
     (if us \<noteq> 0 then ''.'' @ zpad 6 us else [])"

definition isoformat :: "datetime \<Rightarrow> string" where
  "isoformat d =
     zpad 4 (year d) @ ''-'' @ zpad 2 (month d) @ ''-'' @ zpad 2 (day d) @ ''T'' @
     format_time (hour d) (minute d) (second d) (microsecond d)"

text \<open>A run of decimal digits, read as a number; \<open>None\<close> when it is empty or holds another character.\<close>

definition parse_digits :: "string \<Rightarrow> nat option" where
  "parse_digits s =
     (if s \<noteq> [] \<and> list_all is_digit s
      then Some (foldl (\<lambda>acc c. 10 * acc + digit_val c) 0 s) else None)"

text \<open>
  \<^verbatim>\<open>datetime.fromisoformat\<close> on the text of a naive value, the grammar that every release
  having the function reads: \<^verbatim>\<open>YYYY-MM-DD[*HH[:MM[:SS[.fff[fff]]]]]\<close>, where \<^verbatim>\<open>*\<close> is any one
  character.  The fields then go through the range checks of the constructor.  Text with a
  UTC offset denotes a value with a time zone, which this development has no value for, and
  the further ISO 8601 forms that releases from 3.11 on also read are not covered: both are
  answered here with \<^verbatim>\<open>ValueError\<close>.
\<close>

definition parse_isoformat_date :: "string \<Rightarrow> (nat \<times> nat \<times> nat) option" where
  "parse_isoformat_date s =
     (if length s = 10 \<and> s ! 4 = CHR ''-'' \<and> s ! 7 = CHR ''-''
      then (case (parse_digits (take 4 s), parse_digits (take 2 (drop 5 s)),
                  parse_digits (drop 8 s)) of
              (Some y, Some m, Some d) \<Rightarrow> Some (y, m, d)
            | _ \<Rightarrow> None)
      else None)"

definition parse_hh_mm_ss_ff :: "string \<Rightarrow> (nat \<times> nat \<times> nat \<times> nat) option" where
  "parse_hh_mm_ss_ff t =
     (let hh = parse_digits (take 2 t);
          mm = (if length t = 2 then Some 0
                else if t ! 2 = CHR '':'' then parse_digits (take 2 (drop 3 t)) else None);
          ss = (if length t \<le> 5 then Some 0
                else if t ! 5 = CHR '':'' then parse_digits (take 2 (drop 6 t)) else None);
          ff = (if length t \<le> 8 then Some 0
                else if t ! 8 \<noteq> CHR ''.'' then None
                else if length t = 12 then map_option (\<lambda>ms. ms * 1000) (parse_digits (drop 9 t))
                else parse_digits (drop 9 t))
      in if length t \<in> {2, 5, 8, 12, 15}
         then (case (hh, mm, ss, ff) of
                 (Some h, Some m, Some s, Some f) \<Rightarrow> Some (h, m, s, f)
               | _ \<Rightarrow> None)
         else None)"

definition fromisoformat :: "string \<Rightarrow> exn + datetime" where
  "fromisoformat s =
     (case parse_isoformat_date (take 10 s) of
        None \<Rightarrow> Inl ValueError
      | Some (y, m, d) \<Rightarrow>
          (if length s = 10 then mk_datetime y m d 0 0 0 0
           else (case parse_hh_mm_ss_ff (drop 11 s) of
                   None \<Rightarrow> Inl ValueError
                 | Some (hh, mm, ss, us) \<Rightarrow> mk_datetime y m d hh mm ss us)))"

section \<open>\<^verbatim>\<open>datetime.strptime\<close> and \<^verbatim>\<open>parse_datetime\<close>\<close>

text \<open>
  \<^verbatim>\<open>strptime\<close> turns the format into a regular expression and matches it at the start of
  the text.  A directive is a group of alternatives tried in order, each a sequence of
  character classes; a failure further on makes the match come back and try the next
  alternative.  The tables are those of \<^verbatim>\<open>_strptime.TimeRE\<close> for the five directives the
  program uses.
\<close>

datatype directive = Dir_Y | Dir_m | Dir_d | Dir_H | Dir_M

datatype fmt_item = Directive directive | Literal char

definition regex_of :: "directive \<Rightarrow> string list list" where
  "regex_of d =
     (case d of
        Dir_Y \<Rightarrow> [[''0123456789'', ''0123456789'', ''0123456789'', ''0123456789'']]
      | Dir_m \<Rightarrow> [[''1'', ''012''], [''0'', ''123456789''], [''123456789'']]
      | Dir_d \<Rightarrow> [[''3'', ''01''], [''12'', ''0123456789''], [''0'', ''123456789''],
                   [''123456789''], ['' '', ''123456789'']]
      | Dir_H \<Rightarrow> [[''2'', ''0123''], [''01'', ''0123456789''], [''0123456789'']]
      | Dir_M \<Rightarrow> [[''012345'', ''0123456789''], [''0123456789'']])"

fun match_classes :: "string list \<Rightarrow> string \<Rightarrow> (string \<times> string) option" where
  "match_classes [] s = Some ([], s)"
| "match_classes (c # cs) [] = None"
| "match_classes (c # cs) (x # xs) =
     (if x \<in> set c
      then (case match_classes cs xs of None \<Rightarrow> None | Some (m, r) \<Rightarrow> Some (x # m, r))
      else None)"

fun first_some :: "'a option list \<Rightarrow> 'a option" where
  "first_some [] = None"
| "first_some (None # xs) = first_some xs"
| "first_some (Some x # xs) = Some x"

fun re_match :: "fmt_item list \<Rightarrow> string \<Rightarrow> ((directive \<times> string) list \<times> string) option" where
  "re_match [] s = Some ([], s)"
| "re_match (Literal c # fs) s =
     (case s of [] \<Rightarrow> None | x # xs \<Rightarrow> if x = c then re_match fs xs else None)"
| "re_match (Directive d # fs) s =
     first_some
       (map (\<lambda>alt. case match_classes alt s of
                      None \<Rightarrow> None
                    | Some (m, r) \<Rightarrow>
                        (case re_match fs r of
                           None \<Rightarrow> None
                         | Some (groups, rest) \<Rightarrow> Some ((d, m) # groups, rest)))
            (regex_of d))"

text \<open>
  \<^verbatim>\<open>int(found_dict[d])\<close>, with the default when the format has no such directive.  The
  only character a group can hold besides digits is the leading blank of a day, which
  \<^verbatim>\<open>int\<close> skips.
\<close>

definition group_value :: "(directive \<times> string) list \<Rightarrow> directive \<Rightarrow> nat \<Rightarrow> nat" where
  "group_value groups d dflt =
     (case map_of groups d of
        None \<Rightarrow> dflt
      | Some m \<Rightarrow> foldl (\<lambda>acc c. 10 * acc + digit_val c) 0 (filter is_digit m))"

definition strptime :: "string \<Rightarrow> fmt_item list \<Rightarrow> exn + datetime" where
  "strptime data_string format =
     (case re_match format data_string of
        None \<Rightarrow> Inl ValueError
      | Some (groups, rest) \<Rightarrow>
          if rest \<noteq> [] then Inl ValueError
          else mk_datetime (group_value groups Dir_Y 1900) (group_value groups Dir_m 1)
                 (group_value groups Dir_d 1) (group_value groups Dir_H 0)
                 (group_value groups Dir_M 0) 0 0)"

definition fmt_Ymd :: "fmt_item list" where
  "fmt_Ymd = [Directive Dir_Y, Literal (CHR ''-''), Directive Dir_m, Literal (CHR ''-''),
              Directive Dir_d]"

definition fmt_mdY :: "fmt_item list" where
  "fmt_mdY = [Directive Dir_m, Literal (CHR ''/''), Directive Dir_d, Literal (CHR ''/''),
              Directive Dir_Y]"

definition fmt_dmY :: "fmt_item list" where
  "fmt_dmY = [Directive Dir_d, Literal (CHR ''/''), Directive Dir_m, Literal (CHR ''/''),
              Directive Dir_Y]"

definition fmt_HM :: "fmt_item list" where
  "fmt_HM = [Directive Dir_H, Literal (CHR '':''), Directive Dir_M]"

text \<open>
  The \<^verbatim>\<open>for ... else\<close> loop of \<^verbatim>\<open>parse_datetime\<close>: the first format that parses ends
  the loop; a \<^verbatim>\<open>ValueError\<close> moves on to the next; when none is left the \<^verbatim>\<open>else\<close> branch
  raises.
\<close>

fun try_date_formats :: "fmt_item list list \<Rightarrow> string \<Rightarrow> exn + datetime" where
  "try_date_formats [] date_str = Inl ValueError"
| "try_date_formats (date_fmt # fmts) date_str =
     (case strptime date_str date_fmt of
        Inr date_obj \<Rightarrow> Inr date_obj
      | Inl e \<Rightarrow> if e = ValueError then try_date_formats fmts date_str else Inl e)"

text \<open>
  The outer handler of \<^verbatim>\<open>parse_datetime\<close> catches a \<^verbatim>\<open>ValueError\<close> and raises one
  with a longer message, which is the same exception here.
\<close>

definition parse_datetime :: "string \<Rightarrow> string \<Rightarrow> exn + datetime" where
  "parse_datetime date_str time_str =
     (case try_date_formats [fmt_Ymd, fmt_mdY, fmt_dmY] date_str of
        Inl e \<Rightarrow> Inl e
      | Inr date_obj \<Rightarrow>
          (case strptime time_str fmt_HM of
             Inl e \<Rightarrow> Inl e
           | Inr time_obj \<Rightarrow> Inr (combine date_obj time_obj)))"

section \<open>Serialised appointments\<close>

text \<open>\<^verbatim>\<open>Appointment.to_dict\<close>: the dictionary, as its items in the order written.\<close>

definition to_dict :: "appointment \<Rightarrow> (string \<times> json) list" where
  "to_dict self =
     [(''id'', apt_id self),
      (''title'', title self),
      (''start_time'', JString (isoformat (start_time self))),
      (''end_time'', JString (isoformat (end_time self))),
      (''description'', description self),
      (''location'', location self)]"

text \<open>
  \<^verbatim>\<open>data[key]\<close> and \<^verbatim>\<open>data.get(key, default)\<close> for a string key, on whatever value
  \<^verbatim>\<open>data\<close> is: only a dictionary can be indexed by a string, and only a dictionary has
  \<^verbatim>\<open>get\<close>.
\<close>

definition subscript :: "json \<Rightarrow> string \<Rightarrow> exn + json" where
  "subscript data key =
     (case data of
        JObject items \<Rightarrow> (case map_of items key of Some v \<Rightarrow> Inr v | None \<Rightarrow> Inl (KeyError key))
      | _ \<Rightarrow> Inl TypeError)"

definition dict_get :: "json \<Rightarrow> string \<Rightarrow> json \<Rightarrow> exn + json" where
  "dict_get data key dflt =
     (case data of
        JObject items \<Rightarrow> Inr (case map_of items key of Some v \<Rightarrow> v | None \<Rightarrow> dflt)
      | _ \<Rightarrow> Inl AttributeError)"

text \<open>\<^verbatim>\<open>datetime.fromisoformat(v)\<close> for any value: the argument must be a \<^verbatim>\<open>str\<close>.\<close>

definition fromisoformat_value :: "json \<Rightarrow> exn + datetime" where
  "fromisoformat_value v = (case v of JString s \<Rightarrow> fromisoformat s | _ \<Rightarrow> Inl TypeError)"

text \<open>
  \<^verbatim>\<open>Appointment.from_dict\<close>.  The arguments of the constructor call are evaluated in the
  order written, so the first failing one decides the exception; the identifier is read
  last.  The constructor also draws an identifier from the clock, which the assignment
  after it overwrites.
\<close>

definition from_dict :: "json \<Rightarrow> exn + appointment" where
  "from_dict data =
     and_then (subscript data ''title'') (\<lambda>t.
     and_then (and_then (subscript data ''start_time'') fromisoformat_value) (\<lambda>st.
     and_then (and_then (subscript data ''end_time'') fromisoformat_value) (\<lambda>et.
     and_then (dict_get data ''description'' (JString [])) (\<lambda>de.
     and_then (dict_get data ''location'' (JString [])) (\<lambda>lo.
     and_then (subscript data ''id'') (\<lambda>i.
       Inr \<lparr>apt_id = i, title = t, start_time = st, end_time = et,
            description = de, location = lo\<rparr>))))))"

section \<open>The schedule store\<close>

text \<open>
  What the program sees of a file: the value \<^verbatim>\<open>json.load\<close> returns for its content, or
  the exception that opening, reading or decoding it raises (\<open>JSONDecodeError\<close> for text
  that is not JSON).  A file that \<^verbatim>\<open>json.dump\<close> wrote decodes to the value written.
\<close>

datatype file_content = Parses json | Fails exn

text \<open>What the program prints, one constructor for each message.\<close>

datatype message =
  Error_loading exn
| Error_saving exn
| Error_start_before_end
| Warning_conflicts "appointment list"
| Prompt_add_anyway
| Added string
| Removed json
| Not_found

text \<open>
  The world outside the object: the files by path (\<open>None\<close>: no such path), the paths that
  cannot be opened for writing, and the standard output so far.
\<close>

record world =
  files :: "string \<Rightarrow> file_content option"
  unwritable :: "string set"
  stdout :: "message list"

text \<open>\<^verbatim>\<open>class SchedulingApp\<close>\<close>

record scheduling_app =
  data_file :: string
  appointments :: "appointment list"

definition print :: "message \<Rightarrow> world \<Rightarrow> world" where
  "print msg w = w\<lparr>stdout := stdout w @ [msg]\<rparr>"

text \<open>
  What \<^verbatim>\<open>for apt in data\<close> runs over: the elements of a list, the keys of a dictionary,
  the characters of a string; any other value is not iterable.
\<close>

definition iterate :: "json \<Rightarrow> exn + json list" where
  "iterate data =
     (case data of
        JArray xs \<Rightarrow> Inr xs
      | JObject items \<Rightarrow> Inr (map (\<lambda>kv. JString (fst kv)) items)
      | JString s \<Rightarrow> Inr (map (\<lambda>c. JString [c]) s)
      | _ \<Rightarrow> Inl TypeError)"

fun from_dict_all :: "json list \<Rightarrow> exn + appointment list" where
  "from_dict_all [] = Inr []"
| "from_dict_all (apt # rest) =
     and_then (from_dict apt) (\<lambda>a. and_then (from_dict_all rest) (\<lambda>as. Inr (a # as)))"

text \<open>The clause \<^verbatim>\<open>except (json.JSONDecodeError, KeyError)\<close>.\<close>

definition handled_on_load :: "exn \<Rightarrow> bool" where
  "handled_on_load e = (case e of JSONDecodeError \<Rightarrow> True | KeyError k \<Rightarrow> True | _ \<Rightarrow> False)"

text \<open>
  \<^verbatim>\<open>SchedulingApp.load_appointments\<close>.  An exception that the handler does not name leaves
  the method, and the constructor that called it: \<open>Inl\<close>.
\<close>

definition load_appointments :: "scheduling_app \<Rightarrow> world \<Rightarrow> exn + scheduling_app \<times> world" where
  "load_appointments self w =
     (case files w (data_file self) of
        None \<Rightarrow> Inr (self, w)
      | Some f \<Rightarrow>
          (case (case f of
                   Fails e \<Rightarrow> Inl e
                 | Parses data \<Rightarrow> and_then (iterate data) from_dict_all) of
             Inr apts \<Rightarrow> Inr (self\<lparr>appointments := apts\<rparr>, w)
           | Inl e \<Rightarrow>
               if handled_on_load e
               then Inr (self\<lparr>appointments := []\<rparr>, print (Error_loading e) w)
               else Inl e))"

text \<open>\<^verbatim>\<open>SchedulingApp.__init__\<close>\<close>

definition SchedulingApp :: "string \<Rightarrow> world \<Rightarrow> exn + scheduling_app \<times> world" where
  "SchedulingApp path w = load_appointments \<lparr>data_file = path, appointments = []\<rparr> w"

text \<open>
  \<^verbatim>\<open>SchedulingApp.save_appointments\<close>: when the file cannot be opened the handler prints
  and nothing is written.
\<close>

definition save_appointments :: "scheduling_app \<Rightarrow> world \<Rightarrow> world" where
  "save_appointments self w =
     (let data = map (\<lambda>apt. JObject (to_dict apt)) (appointments self)
      in if data_file self \<in> unwritable w then print (Error_saving OSError) w
         else w\<lparr>files := (files w)(data_file self \<mapsto> Parses (JArray data))\<rparr>)"

text \<open>\<^verbatim>\<open>SchedulingApp.find_conflicts\<close>: the loop, with the list it appends to.\<close>

fun find_conflicts_loop ::
  "appointment \<Rightarrow> appointment list \<Rightarrow> appointment list \<Rightarrow> appointment list" where
  "find_conflicts_loop appointment [] conflicts = conflicts"
| "find_conflicts_loop appointment (existing # rest) conflicts =
     find_conflicts_loop appointment rest
       (if overlaps_with appointment existing then conflicts @ [existing] else conflicts)"

definition find_conflicts :: "scheduling_app \<Rightarrow> appointment \<Rightarrow> appointment list" where
  "find_conflicts self appointment = find_conflicts_loop appointment (appointments self) []"

text \<open>\<^verbatim>\<open>str.lower\<close>, on ASCII text.\<close>

definition lower :: "string \<Rightarrow> string" where
  "lower s =
     map (\<lambda>c. if 65 \<le> (of_char c :: nat) \<and> (of_char c :: nat) \<le> 90
               then char_of ((of_char c :: nat) + 32) else c) s"

text \<open>
  \<^verbatim>\<open>SchedulingApp.add_appointment\<close>.  Two things come from outside: \<open>new_id\<close>, the
  identifier that the constructor draws from the clock, and \<open>response\<close>, the line the
  user types when asked about conflicts.
\<close>

definition add_appointment ::
  "string \<Rightarrow> datetime \<Rightarrow> datetime \<Rightarrow> string \<Rightarrow> string \<Rightarrow> string \<Rightarrow> string \<Rightarrow>
   scheduling_app \<Rightarrow> world \<Rightarrow> bool \<times> scheduling_app \<times> world" where
  "add_appointment ttl start_t end_t descr loc new_id response self w =
     (if start_t \<ge> end_t then (False, self, print Error_start_before_end w)
      else
        let new_appointment =
              \<lparr>apt_id = JString new_id, title = JString ttl, start_time = start_t,
               end_time = end_t, description = JString descr, location = JString loc\<rparr>;
            conflicts = find_conflicts self new_appointment;
            w1 = (if conflicts \<noteq> []
                  then print Prompt_add_anyway (print (Warning_conflicts conflicts) w)
                  else w)
        in if conflicts \<noteq> [] \<and> lower response \<noteq> ''y'' then (False, self, w1)
           else
             let self' = self\<lparr>appointments := appointments self @ [new_appointment]\<rparr>
             in (True, self', print (Added ttl) (save_appointments self' w1)))"

text \<open>
  \<^verbatim>\<open>SchedulingApp.remove_appointment\<close>: the loop looks for the first index whose
  appointment has the identifier, a \<^verbatim>\<open>str\<close>; \<^verbatim>\<open>pop(i)\<close> takes that element out.
\<close>

fun find_index_of_id :: "string \<Rightarrow> nat \<Rightarrow> appointment list \<Rightarrow> nat option" where
  "find_index_of_id appointment_id i [] = None"
| "find_index_of_id appointment_id i (apt # rest) =
     (if apt_id apt = JString appointment_id then Some i
      else find_index_of_id appointment_id (Suc i) rest)"

definition pop :: "nat \<Rightarrow> 'a list \<Rightarrow> 'a list" where
  "pop i xs = take i xs @ drop (Suc i) xs"

definition remove_appointment ::
  "string \<Rightarrow> scheduling_app \<Rightarrow> world \<Rightarrow> bool \<times> scheduling_app \<times> world" where
  "remove_appointment appointment_id self w =
     (case find_index_of_id appointment_id 0 (appointments self) of
        Some i \<Rightarrow>
          let removed = appointments self ! i;
              self' = self\<lparr>appointments := pop i (appointments self)\<rparr>
          in (True, self', print (Removed (title removed)) (save_appointments self' w))
      | None \<Rightarrow> (False, self, print Not_found w))"

text \<open>\<^verbatim>\<open>SchedulingApp.get_appointments_for_date\<close>\<close>

definition get_appointments_for_date ::
  "scheduling_app \<Rightarrow> datetime \<Rightarrow> exn + appointment list" where
  "get_appointments_for_date self date =
     (let start_of_day = replace_midnight date
      in and_then (and_then (timedelta 1) (datetime_add start_of_day)) (\<lambda>end_of_day.
           Inr (filter (\<lambda>apt. start_of_day \<le> start_time apt \<and> start_time apt < end_of_day)
                  (appointments self))))"

text \<open>
  \<^verbatim>\<open>SchedulingApp.get_upcoming_appointments\<close>, with \<open>now\<close> the value that
  \<^verbatim>\<open>datetime.now()\<close> returns.  \<^verbatim>\<open>sorted\<close> is stable, as \<open>sort_key\<close> is.
\<close>

definition get_upcoming_appointments ::
  "scheduling_app \<Rightarrow> datetime \<Rightarrow> int \<Rightarrow> exn + appointment list" where
  "get_upcoming_appointments self now days =
     and_then (and_then (timedelta days) (datetime_add now)) (\<lambda>future_date.
       let upcoming = filter (\<lambda>apt. now \<le> start_time apt \<and> start_time apt \<le> future_date)
                        (appointments self)
       in Inr (sort_key start_time upcoming))"

section \<open>Calendar dates\<close>

text \<open>
  \<^verbatim>\<open>d.date()\<close>, the calendar date of a timestamp, and the day after a date by the rules
  of the calendar: the next day of the month, else the first of the next month, else the
  first of January of the next year.  The program computes neither; they state what its
  day window selects.
\<close>

definition date_of :: "datetime \<Rightarrow> nat \<times> nat \<times> nat" where
  "date_of d = (year d, month d, day d)"

definition next_day :: "nat \<Rightarrow> nat \<Rightarrow> nat \<Rightarrow> nat \<times> nat \<times> nat" where
  "next_day y m d =
     (if d < days_in_month y m then (y, m, Suc d)
      else if m < 12 then (y, Suc m, 1)
      else (Suc y, 1, 1))"

section \<open>Example values\<close>

text \<open>Concrete appointments, stores and worlds at which the results below are exercised.\<close>

definition example_apt :: "string \<Rightarrow> datetime \<Rightarrow> datetime \<Rightarrow> appointment" where
  "example_apt i s e =
     \<lparr>apt_id = JString i, title = JString ''Meeting'', start_time = s, end_time = e,
      description = JString [], location = JString ''Room 1''\<rparr>"

definition example_world :: world where
  "example_world = \<lparr>files = (\<lambda>p. None), unwritable = {}, stdout = []\<rparr>"

definition example_store :: scheduling_app where
  "example_store =
     \<lparr>data_file = ''schedule.json'',
      appointments =
        [example_apt ''1'' (Datetime 2025 1 1 9 0 0 0) (Datetime 2025 1 1 10 0 0 0),
         example_apt ''2'' (Datetime 2025 1 1 23 0 0 0) (Datetime 2025 1 2 1 0 0 0),
         example_apt ''3'' (Datetime 2025 1 2 9 0 0 0) (Datetime 2025 1 2 10 0 0 0)]\<rparr>"

section \<open>Overlap of appointments\<close>

lemmas datetime_order_defs = less_datetime_def less_eq_datetime_def dt_tuple_def

text \<open>
  C1.  \<open>A.overlaps_with(B)\<close> is true exactly when \<open>A\<close> starts before \<open>B\<close> ends and \<open>A\<close> ends
  after \<open>B\<close> starts; two appointments that only touch (\<open>A\<close> ends at the instant \<open>B\<close>
  starts) do not overlap.
\<close>

theorem overlaps_with_iff:
  "(overlaps_with A B \<longleftrightarrow> start_time A < end_time B \<and> end_time A > start_time B) \<and>
   (end_time A = start_time B \<longrightarrow> \<not> overlaps_with A B)"
  by (simp add: overlaps_with_def)

theorem overlaps_with_iff_witness:
  "end_time (example_apt ''a'' (Datetime 2025 1 1 10 0 0 0) (Datetime 2025 1 1 11 0 0 0)) =
     start_time (example_apt ''b'' (Datetime 2025 1 1 11 0 0 0) (Datetime 2025 1 1 12 0 0 0)) \<and>
   \<not> overlaps_with
       (example_apt ''a'' (Datetime 2025 1 1 10 0 0 0) (Datetime 2025 1 1 11 0 0 0))
       (example_apt ''b'' (Datetime 2025 1 1 11 0 0 0) (Datetime 2025 1 1 12 0 0 0))"
  using overlaps_with_iff
    [of "example_apt ''a'' (Datetime 2025 1 1 10 0 0 0) (Datetime 2025 1 1 11 0 0 0)"
        "example_apt ''b'' (Datetime 2025 1 1 11 0 0 0) (Datetime 2025 1 1 12 0 0 0)"]
  by (simp add: example_apt_def)

text \<open>
  C9, as claimed, fails: an appointment whose interval is the single instant 10:00 overlaps,
  both ways round, an appointment from 09:00 to 11:00.
\<close>

theorem empty_interval_overlap_counterexample:
  "start_time (example_apt ''a'' (Datetime 2025 1 1 10 0 0 0) (Datetime 2025 1 1 10 0 0 0)) =
     end_time (example_apt ''a'' (Datetime 2025 1 1 10 0 0 0) (Datetime 2025 1 1 10 0 0 0)) \<and>
   overlaps_with
     (example_apt ''a'' (Datetime 2025 1 1 10 0 0 0) (Datetime 2025 1 1 10 0 0 0))
     (example_apt ''b'' (Datetime 2025 1 1 9 0 0 0) (Datetime 2025 1 1 11 0 0 0)) \<and>
   overlaps_with
     (example_apt ''b'' (Datetime 2025 1 1 9 0 0 0) (Datetime 2025 1 1 11 0 0 0))
     (example_apt ''a'' (Datetime 2025 1 1 10 0 0 0) (Datetime 2025 1 1 10 0 0 0))"
  by (simp add: overlaps_with_def example_apt_def datetime_order_defs)

text \<open>
  C9, amended.  When the interval of \<open>A\<close> is empty, \<open>A.overlaps_with(B)\<close> and
  \<open>B.overlaps_with(A)\<close> are both true exactly when the instant of \<open>A\<close> lies strictly inside
  \<open>B\<close>, that is \<open>B.start_time < A.start_time < B.end_time\<close>; so \<open>A\<close> does not overlap itself.
  For any appointment \<open>C\<close>, \<open>C.overlaps_with(C)\<close> is true exactly when
  \<open>C.start_time < C.end_time\<close>.
\<close>

theorem empty_interval_overlap:
  "(start_time A = end_time A \<longrightarrow>
      (overlaps_with A B \<longleftrightarrow> start_time B < start_time A \<and> start_time A < end_time B) \<and>
      (overlaps_with B A \<longleftrightarrow> start_time B < start_time A \<and> start_time A < end_time B) \<and>
      \<not> overlaps_with A A) \<and>
   (overlaps_with C C \<longleftrightarrow> start_time C < end_time C)"
  by (auto simp add: overlaps_with_def)

theorem empty_interval_overlap_witness:
  "start_time (example_apt ''a'' (Datetime 2025 1 1 10 0 0 0) (Datetime 2025 1 1 10 0 0 0)) =
     end_time (example_apt ''a'' (Datetime 2025 1 1 10 0 0 0) (Datetime 2025 1 1 10 0 0 0)) \<and>
   \<not> overlaps_with
       (example_apt ''a'' (Datetime 2025 1 1 10 0 0 0) (Datetime 2025 1 1 10 0 0 0))
       (example_apt ''a'' (Datetime 2025 1 1 10 0 0 0) (Datetime 2025 1 1 10 0 0 0)) \<and>
   \<not> overlaps_with
       (example_apt ''a'' (Datetime 2025 1 1 10 0 0 0) (Datetime 2025 1 1 10 0 0 0))
       (example_apt ''b'' (Datetime 2025 1 1 10 0 0 0) (Datetime 2025 1 1 11 0 0 0))"
  using empty_interval_overlap
    [of "example_apt ''a'' (Datetime 2025 1 1 10 0 0 0) (Datetime 2025 1 1 10 0 0 0)"
        "example_apt ''b'' (Datetime 2025 1 1 10 0 0 0) (Datetime 2025 1 1 11 0 0 0)"]
  by (simp add: example_apt_def)

section \<open>Conflicts\<close>

lemma find_conflicts_loop_filter:
  "find_conflicts_loop c xs acc = acc @ filter (overlaps_with c) xs"
  by (induction xs arbitrary: acc) simp_all

text \<open>
  C8.  \<open>find_conflicts(candidate)\<close> returns exactly the stored appointments that the
  candidate overlaps, in store order.  It is a function of the store that returns only
  the list: the store is not changed.
\<close>

theorem find_conflicts_filter:
  "find_conflicts self candidate = filter (overlaps_with candidate) (appointments self)"
  by (simp add: find_conflicts_def find_conflicts_loop_filter)

section \<open>Adding and removing\<close>

text \<open>
  C4.  When \<open>start_time >= end_time\<close>, \<open>add_appointment\<close> returns \<open>False\<close> and changes
  nothing: the store object, hence its list of appointments, is the one passed in, and no
  file is touched.  It prints the error message.
\<close>

theorem add_appointment_rejects:
  "start_t \<ge> end_t \<Longrightarrow>
   (case add_appointment ttl start_t end_t descr loc new_id response self w of
      (ok, self', w') \<Rightarrow>
        \<not> ok \<and> self' = self \<and> appointments self' = appointments self \<and>
        files w' = files w \<and> stdout w' = stdout w @ [Error_start_before_end])"
  by (simp add: add_appointment_def print_def)

theorem add_appointment_rejects_witness:
  "Datetime 2025 1 1 10 0 0 0 \<ge> Datetime 2025 1 1 10 0 0 0 \<and>
   (case add_appointment ''Lunch'' (Datetime 2025 1 1 10 0 0 0) (Datetime 2025 1 1 10 0 0 0)
           [] [] ''4'' ''y'' example_store example_world of
      (ok, self', w') \<Rightarrow>
        \<not> ok \<and> self' = example_store \<and> appointments self' = appointments example_store \<and>
        files w' = files example_world \<and>
        stdout w' = stdout example_world @ [Error_start_before_end])"
  using add_appointment_rejects
    [where start_t = "Datetime 2025 1 1 10 0 0 0" and end_t = "Datetime 2025 1 1 10 0 0 0"
       and ttl = "''Lunch''" and descr = "[]" and loc = "[]" and new_id = "''4''"
       and response = "''y''" and self = example_store and w = example_world]
  by simp

lemma find_index_of_id_None:
  "find_index_of_id aid i xs = None \<longleftrightarrow> (\<forall>a\<in>set xs. apt_id a \<noteq> JString aid)"
  by (induction xs arbitrary: i) auto

lemma find_index_of_id_first:
  "apt_id a = JString aid \<Longrightarrow> \<forall>b\<in>set before. apt_id b \<noteq> JString aid \<Longrightarrow>
   find_index_of_id aid i (before @ a # after) = Some (i + length before)"
  by (induction before arbitrary: i) auto

lemma pop_middle: "pop (length xs) (xs @ y # ys) = xs @ ys"
  by (simp add: pop_def)

text \<open>
  C6.  With an identifier that no stored appointment has, \<open>remove_appointment\<close> returns
  \<open>False\<close> and leaves the store and the files as they were.  When \<open>a\<close> is the first stored
  appointment with the identifier, it returns \<open>True\<close>, the list becomes the entries before
  \<open>a\<close> followed by the entries after it, and that list is handed to \<open>save_appointments\<close>;
  the backing file, when it can be written, then holds the serialised shorter list.
\<close>

theorem remove_appointment_spec:
  "((\<forall>b\<in>set (appointments self). apt_id b \<noteq> JString aid) \<longrightarrow>
      remove_appointment aid self w = (False, self, print Not_found w) \<and>
      files (print Not_found w) = files w) \<and>
   (appointments self = before @ a # after \<and> apt_id a = JString aid \<and>
    (\<forall>b\<in>set before. apt_id b \<noteq> JString aid) \<longrightarrow>
      (case remove_appointment aid self w of
         (ok, self', w') \<Rightarrow>
           ok \<and> self' = self\<lparr>appointments := before @ after\<rparr> \<and>
           w' = print (Removed (title a)) (save_appointments self' w) \<and>
           (data_file self \<notin> unwritable w \<longrightarrow>
              files w' =
                (files w)(data_file self \<mapsto>
                   Parses (JArray (map (\<lambda>apt. JObject (to_dict apt)) (before @ after)))))))"
proof (intro conjI impI)
  assume "\<forall>b\<in>set (appointments self). apt_id b \<noteq> JString aid"
  then have "find_index_of_id aid 0 (appointments self) = None"
    by (simp add: find_index_of_id_None)
  then show "remove_appointment aid self w = (False, self, print Not_found w)"
    by (simp add: remove_appointment_def)
next
  show "files (print Not_found w) = files w"
    by (simp add: print_def)
next
  assume h: "appointments self = before @ a # after \<and> apt_id a = JString aid \<and>
    (\<forall>b\<in>set before. apt_id b \<noteq> JString aid)"
  then have idx: "find_index_of_id aid 0 (appointments self) = Some (length before)"
    using find_index_of_id_first [of a aid before 0 after] by simp
  have elem: "appointments self ! length before = a"
    using h by simp
  have rest: "pop (length before) (appointments self) = before @ after"
    using h by (simp add: pop_middle)
  show "case remove_appointment aid self w of
      (ok, self', w') \<Rightarrow>
        ok \<and> self' = self\<lparr>appointments := before @ after\<rparr> \<and>
        w' = print (Removed (title a)) (save_appointments self' w) \<and>
        (data_file self \<notin> unwritable w \<longrightarrow>
           files w' =
             (files w)(data_file self \<mapsto>
                Parses (JArray (map (\<lambda>apt. JObject (to_dict apt)) (before @ after)))))"
    by (simp add: remove_appointment_def idx elem rest save_appointments_def print_def Let_def)
qed

theorem remove_appointment_spec_witness:
  "JString ''9'' \<notin> apt_id ` set (appointments example_store) \<and>
   remove_appointment ''9'' example_store example_world =
     (False, example_store, print Not_found example_world) \<and>
   appointments example_store =
     [example_apt ''1'' (Datetime 2025 1 1 9 0 0 0) (Datetime 2025 1 1 10 0 0 0)] @
     example_apt ''2'' (Datetime 2025 1 1 23 0 0 0) (Datetime 2025 1 2 1 0 0 0) #
     [example_apt ''3'' (Datetime 2025 1 2 9 0 0 0) (Datetime 2025 1 2 10 0 0 0)] \<and>
   fst (remove_appointment ''2'' example_store example_world) \<and>
   appointments (fst (snd (remove_appointment ''2'' example_store example_world))) =
     [example_apt ''1'' (Datetime 2025 1 1 9 0 0 0) (Datetime 2025 1 1 10 0 0 0),
      example_apt ''3'' (Datetime 2025 1 2 9 0 0 0) (Datetime 2025 1 2 10 0 0 0)] \<and>
   files (snd (snd (remove_appointment ''2'' example_store example_world))) ''schedule.json'' =
     Some (Parses (JArray
       [JObject (to_dict
          (example_apt ''1'' (Datetime 2025 1 1 9 0 0 0) (Datetime 2025 1 1 10 0 0 0))),
        JObject (to_dict
          (example_apt ''3'' (Datetime 2025 1 2 9 0 0 0) (Datetime 2025 1 2 10 0 0 0)))]))"
proof -
  have none: "\<forall>b\<in>set (appointments example_store). apt_id b \<noteq> JString ''9''"
    by (simp add: example_store_def example_apt_def)
  have split: "appointments example_store =
     [example_apt ''1'' (Datetime 2025 1 1 9 0 0 0) (Datetime 2025 1 1 10 0 0 0)] @
     example_apt ''2'' (Datetime 2025 1 1 23 0 0 0) (Datetime 2025 1 2 1 0 0 0) #
     [example_apt ''3'' (Datetime 2025 1 2 9 0 0 0) (Datetime 2025 1 2 10 0 0 0)]"
    by (simp add: example_store_def)
  have first: "apt_id (example_apt ''2'' (Datetime 2025 1 1 23 0 0 0) (Datetime 2025 1 2 1 0 0 0))
      = JString ''2'' \<and>
    (\<forall>b\<in>set [example_apt ''1'' (Datetime 2025 1 1 9 0 0 0) (Datetime 2025 1 1 10 0 0 0)].
       apt_id b \<noteq> JString ''2'')"
    by (simp add: example_apt_def)
  have writable: "data_file example_store \<notin> unwritable example_world"
    by (simp add: example_world_def)
  have name: "data_file example_store = ''schedule.json''"
    by (simp add: example_store_def)
  note absent = remove_appointment_spec
    [where self = example_store and aid = "''9''" and w = example_world,
     THEN conjunct1, THEN mp, OF none]
  note present = remove_appointment_spec
    [where self = example_store and aid = "''2''" and w = example_world,
     THEN conjunct2, THEN mp, OF conjI [OF split first]]
  have none': "JString ''9'' \<notin> apt_id ` set (appointments example_store)"
    using none by auto
  show ?thesis
    using none' split absent present writable name by (auto split: prod.splits)
qed

section \<open>Queries by date\<close>

lemmas calendar_defs =
  ymd2ord_def days_before_year_def days_before_month_def is_leap_def days_in_month_def
  DAYS_BEFORE_MONTH_def DAYS_IN_MONTH_def MAXORDINAL_def DI400Y_def DI100Y_def DI4Y_def
  toordinal_def

lemma datetime_add_example:
  "datetime_add (Datetime 2025 3 5 8 30 0 0) 7 = Inr (Datetime 2025 3 12 8 30 0 0)"
proof -
  have "toordinal (Datetime 2025 3 5 8 30 0 0) = 739315"
    by (simp add: calendar_defs)
  moreover have "ord2ymd 739322 = (2025, 3, 12)"
    by (simp add: ord2ymd_def month_day_def calendar_defs Let_def)
  ultimately show ?thesis
    by (simp add: datetime_add_def MAXORDINAL_def)
qed

text \<open>
  C2, as claimed, fails at the upper end of the window: with \<open>now\<close> = 2025-03-05 08:30 and
  \<open>days\<close> = 7 the end of the window is 2025-03-12 08:30, an appointment starting at exactly
  that instant is not in \<open>[now, now + days)\<close>, and \<open>get_upcoming_appointments\<close> returns it.
\<close>

theorem get_upcoming_appointments_counterexample:
  "and_then (timedelta 7) (datetime_add (Datetime 2025 3 5 8 30 0 0)) =
     Inr (Datetime 2025 3 12 8 30 0 0) \<and>
   \<not> start_time (example_apt ''1'' (Datetime 2025 3 12 8 30 0 0) (Datetime 2025 3 12 9 0 0 0))
       < Datetime 2025 3 12 8 30 0 0 \<and>
   get_upcoming_appointments
     \<lparr>data_file = ''schedule.json'',
      appointments =
        [example_apt ''1'' (Datetime 2025 3 12 8 30 0 0) (Datetime 2025 3 12 9 0 0 0)]\<rparr>
     (Datetime 2025 3 5 8 30 0 0) 7 =
   Inr [example_apt ''1'' (Datetime 2025 3 12 8 30 0 0) (Datetime 2025 3 12 9 0 0 0)]"
  by (simp add: get_upcoming_appointments_def and_then_def timedelta_def datetime_add_example
      example_apt_def datetime_order_defs)

text \<open>
  C2, amended.  Whenever the end of the window \<open>now + timedelta(days)\<close> is a timestamp
  (\<open>future_date\<close>), \<open>get_upcoming_appointments(days)\<close> returns exactly the stored
  appointments whose start lies in the closed interval from \<open>now\<close> to \<open>future_date\<close>, each as
  often as it is stored, sorted ascending by start, appointments with equal starts in store
  order; an appointment starting before \<open>now\<close> is not returned.
\<close>

theorem get_upcoming_appointments_spec:
  "and_then (timedelta days) (datetime_add now) = Inr future_date \<Longrightarrow>
   (\<exists>result. get_upcoming_appointments self now days = Inr result \<and>
      mset result =
        filter_mset (\<lambda>apt. now \<le> start_time apt \<and> start_time apt \<le> future_date)
          (mset (appointments self)) \<and>
      sorted (map start_time result) \<and>
      (\<forall>t. filter (\<lambda>apt. start_time apt = t) result =
           filter (\<lambda>apt. start_time apt = t \<and> now \<le> t \<and> t \<le> future_date)
             (appointments self)) \<and>
      (\<forall>apt. start_time apt < now \<longrightarrow> apt \<notin> set result))"
proof -
  assume window: "and_then (timedelta days) (datetime_add now) = Inr future_date"
  define upcoming where
    "upcoming = filter (\<lambda>apt. now \<le> start_time apt \<and> start_time apt \<le> future_date)
       (appointments self)"
  have res: "get_upcoming_appointments self now days = Inr (sort_key start_time upcoming)"
    using window by (simp add: get_upcoming_appointments_def upcoming_def and_then_def)
  have m: "mset (sort_key start_time upcoming) =
      filter_mset (\<lambda>apt. now \<le> start_time apt \<and> start_time apt \<le> future_date)
        (mset (appointments self))"
    by (simp add: upcoming_def)
  have s: "sorted (map start_time (sort_key start_time upcoming))"
    by (rule sorted_sort_key)
  have st: "filter (\<lambda>apt. start_time apt = t) (sort_key start_time upcoming) =
      filter (\<lambda>apt. start_time apt = t \<and> now \<le> t \<and> t \<le> future_date) (appointments self)"
    for t
  proof -
    have "filter (\<lambda>apt. start_time apt = t) (sort_key start_time upcoming) =
        filter (\<lambda>apt. start_time apt = t) upcoming"
      by (rule sort_key_stable)
    also have "\<dots> =
        filter (\<lambda>apt. start_time apt = t \<and> now \<le> t \<and> t \<le> future_date) (appointments self)"
      unfolding upcoming_def filter_filter by (rule filter_cong) auto
    finally show ?thesis .
  qed
  have ex: "apt \<notin> set (sort_key start_time upcoming)" if "start_time apt < now" for apt
    using that by (auto simp add: upcoming_def)
  show ?thesis
    using res m s st ex by blast
qed

theorem get_upcoming_appointments_spec_witness:
  "and_then (timedelta 7) (datetime_add (Datetime 2025 3 5 8 30 0 0)) =
     Inr (Datetime 2025 3 12 8 30 0 0) \<and>
   (\<exists>result. get_upcoming_appointments example_store (Datetime 2025 3 5 8 30 0 0) 7 = Inr result \<and>
      mset result =
        filter_mset (\<lambda>apt. Datetime 2025 3 5 8 30 0 0 \<le> start_time apt \<and>
                           start_time apt \<le> Datetime 2025 3 12 8 30 0 0)
          (mset (appointments example_store)) \<and>
      sorted (map start_time result))"
proof -
  have window: "and_then (timedelta 7) (datetime_add (Datetime 2025 3 5 8 30 0 0)) =
      Inr (Datetime 2025 3 12 8 30 0 0)"
    by (simp add: and_then_def timedelta_def datetime_add_example)
  from get_upcoming_appointments_spec [OF window, of example_store] window
  show ?thesis by blast
qed

section \<open>Parsing what the user types\<close>

lemmas strptime_eval =
  strptime_def regex_of_def group_value_def mk_datetime_def valid_datetime_def
  is_digit_def digit_val_def days_in_month_def is_leap_def DAYS_IN_MONTH_def
  fmt_Ymd_def fmt_mdY_def fmt_dmY_def fmt_HM_def

lemma strptime_error: "strptime s f = Inl e \<Longrightarrow> e = ValueError"
  by (auto simp add: strptime_def mk_datetime_def split: option.splits prod.splits if_splits)

lemma strptime_month_first: "strptime ''01/02/2025'' fmt_mdY = Inr (Datetime 2025 1 2 0 0 0 0)"
  by (simp add: strptime_eval)

lemma strptime_day_first: "strptime ''01/02/2025'' fmt_dmY = Inr (Datetime 2025 2 1 0 0 0 0)"
  by (simp add: strptime_eval)

lemma strptime_not_iso: "strptime ''01/02/2025'' fmt_Ymd = Inl ValueError"
  by (simp add: strptime_eval)

text \<open>
  C10.  \<open>parse_datetime\<close> takes the date from the first of the formats \<^verbatim>\<open>%Y-%m-%d\<close>,
  \<^verbatim>\<open>%m/%d/%Y\<close>, \<^verbatim>\<open>%d/%m/%Y\<close>, in this order, that parses the text, whatever a later
  format would make of it.  The text \<^verbatim>\<open>01/02/2025\<close> parses under the second format as
  January 2 and under the third as February 1; with any time that parses, the result is
  January 2, 2025.
\<close>

theorem parse_datetime_first_format:
  "strptime time_str fmt_HM = Inr t \<Longrightarrow>
   (strptime date_str fmt_Ymd = Inr d \<longrightarrow>
      parse_datetime date_str time_str = Inr (combine d t)) \<and>
   (strptime date_str fmt_Ymd = Inl e1 \<and> strptime date_str fmt_mdY = Inr d \<longrightarrow>
      parse_datetime date_str time_str = Inr (combine d t)) \<and>
   (strptime date_str fmt_Ymd = Inl e1 \<and> strptime date_str fmt_mdY = Inl e2 \<and>
    strptime date_str fmt_dmY = Inr d \<longrightarrow>
      parse_datetime date_str time_str = Inr (combine d t)) \<and>
   strptime ''01/02/2025'' fmt_mdY = Inr (Datetime 2025 1 2 0 0 0 0) \<and>
   strptime ''01/02/2025'' fmt_dmY = Inr (Datetime 2025 2 1 0 0 0 0) \<and>
   parse_datetime ''01/02/2025'' time_str =
     Inr (Datetime 2025 1 2 (hour t) (minute t) (second t) (microsecond t))"
proof -
  assume t: "strptime time_str fmt_HM = Inr t"
  have first: "parse_datetime date_str time_str = Inr (combine d t)"
    if "strptime date_str fmt_Ymd = Inr d"
    using that t by (simp add: parse_datetime_def)
  have second: "parse_datetime date_str time_str = Inr (combine d t)"
    if "strptime date_str fmt_Ymd = Inl e1" and "strptime date_str fmt_mdY = Inr d"
    using that t strptime_error [of date_str fmt_Ymd e1] by (simp add: parse_datetime_def)
  have third: "parse_datetime date_str time_str = Inr (combine d t)"
    if "strptime date_str fmt_Ymd = Inl e1" and "strptime date_str fmt_mdY = Inl e2"
      and "strptime date_str fmt_dmY = Inr d"
    using that t strptime_error [of date_str fmt_Ymd e1] strptime_error [of date_str fmt_mdY e2]
    by (simp add: parse_datetime_def)
  have example: "parse_datetime ''01/02/2025'' time_str =
      Inr (Datetime 2025 1 2 (hour t) (minute t) (second t) (microsecond t))"
    using t by (simp add: parse_datetime_def strptime_not_iso strptime_month_first combine_def)
  show ?thesis
    using first second third example strptime_month_first strptime_day_first by blast
qed

theorem parse_datetime_first_format_witness:
  "strptime ''10:00'' fmt_HM = Inr (Datetime 1900 1 1 10 0 0 0) \<and>
   strptime ''2025-03-05'' fmt_Ymd = Inr (Datetime 2025 3 5 0 0 0 0) \<and>
   parse_datetime ''2025-03-05'' ''10:00'' = Inr (Datetime 2025 3 5 10 0 0 0) \<and>
   strptime ''01/02/2025'' fmt_Ymd = Inl ValueError \<and>
   strptime ''01/02/2025'' fmt_mdY = Inr (Datetime 2025 1 2 0 0 0 0) \<and>
   strptime ''01/02/2025'' fmt_dmY = Inr (Datetime 2025 2 1 0 0 0 0) \<and>
   parse_datetime ''01/02/2025'' ''10:00'' = Inr (Datetime 2025 1 2 10 0 0 0) \<and>
   strptime ''13/02/2025'' fmt_Ymd = Inl ValueError \<and>
   strptime ''13/02/2025'' fmt_mdY = Inl ValueError \<and>
   strptime ''13/02/2025'' fmt_dmY = Inr (Datetime 2025 2 13 0 0 0 0) \<and>
   parse_datetime ''13/02/2025'' ''10:00'' = Inr (Datetime 2025 2 13 10 0 0 0)"
proof -
  have t: "strptime ''10:00'' fmt_HM = Inr (Datetime 1900 1 1 10 0 0 0)"
    by (simp add: strptime_eval)
  have a: "strptime ''2025-03-05'' fmt_Ymd = Inr (Datetime 2025 3 5 0 0 0 0)"
    by (simp add: strptime_eval)
  have b1: "strptime ''01/02/2025'' fmt_Ymd = Inl ValueError"
    by (simp add: strptime_eval)
  have b2: "strptime ''01/02/2025'' fmt_mdY = Inr (Datetime 2025 1 2 0 0 0 0)"
    by (simp add: strptime_eval)
  have b3: "strptime ''01/02/2025'' fmt_dmY = Inr (Datetime 2025 2 1 0 0 0 0)"
    by (simp add: strptime_eval)
  have c1: "strptime ''13/02/2025'' fmt_Ymd = Inl ValueError"
    by (simp add: strptime_eval)
  have c2: "strptime ''13/02/2025'' fmt_mdY = Inl ValueError"
    by (simp add: strptime_eval)
  have c3: "strptime ''13/02/2025'' fmt_dmY = Inr (Datetime 2025 2 13 0 0 0 0)"
    by (simp add: strptime_eval)
  have r1: "parse_datetime ''2025-03-05'' ''10:00'' =
      Inr (combine (Datetime 2025 3 5 0 0 0 0) (Datetime 1900 1 1 10 0 0 0))"
    using parse_datetime_first_format [OF t, THEN conjunct1, THEN mp, OF a] .
  have r2: "parse_datetime ''01/02/2025'' ''10:00'' =
      Inr (combine (Datetime 2025 1 2 0 0 0 0) (Datetime 1900 1 1 10 0 0 0))"
    using parse_datetime_first_format
      [OF t, THEN conjunct2, THEN conjunct1, THEN mp, OF conjI [OF b1 b2]] .
  have r3: "parse_datetime ''13/02/2025'' ''10:00'' =
      Inr (combine (Datetime 2025 2 13 0 0 0 0) (Datetime 1900 1 1 10 0 0 0))"
    using parse_datetime_first_format
      [OF t, THEN conjunct2, THEN conjunct2, THEN conjunct1, THEN mp,
       OF conjI [OF c1 conjI [OF c2 c3]]] .
  show ?thesis
    using t a b1 b2 b3 c1 c2 c3 r1 r2 r3 by (simp add: combine_def)
qed

section \<open>Loading the backing file\<close>

text \<open>
  What the handler of \<open>load_appointments\<close> does cover: a file that is not JSON, and a record
  without one of the keys that \<open>from_dict\<close> indexes.  The list is then empty and the error
  is printed.
\<close>

lemma load_appointments_not_json:
  "files w (data_file self) = Some (Fails JSONDecodeError) \<Longrightarrow>
   load_appointments self w =
     Inr (self\<lparr>appointments := []\<rparr>, print (Error_loading JSONDecodeError) w)"
  by (simp add: load_appointments_def handled_on_load_def)

lemma load_appointments_handled:
  "files w (data_file self) = Some (Parses data) \<Longrightarrow>
   and_then (iterate data) from_dict_all = Inl (KeyError k) \<Longrightarrow>
   load_appointments self w =
     Inr (self\<lparr>appointments := []\<rparr>, print (Error_loading (KeyError k)) w)"
  by (simp add: load_appointments_def handled_on_load_def)

lemma load_appointments_missing_title:
  "files w (data_file self) = Some (Parses (JArray (JObject [(''id'', JString ''1'')] # rest))) \<Longrightarrow>
   load_appointments self w =
     Inr (self\<lparr>appointments := []\<rparr>, print (Error_loading (KeyError ''title'')) w)"
  by (simp add: load_appointments_def handled_on_load_def iterate_def and_then_def
      from_dict_def subscript_def)

lemma load_appointments_raises:
  "load_appointments self w = Inl e \<Longrightarrow> \<not> handled_on_load e"
  by (auto simp add: load_appointments_def split: option.splits sum.splits if_splits)

text \<open>
  C7.  The code does not do what the claim says for a timestamp that is not ISO 8601 text:
  \<open>fromisoformat\<close> raises \<open>ValueError\<close>, which the handler does not name.  With the file
  holding one record whose \<open>start_time\<close> is the text \<^verbatim>\<open>tomorrow\<close>, the exception leaves
  \<open>load_appointments\<close> and the constructor of the store: the list is not reset and nothing
  is printed.
\<close>

theorem load_appointments_malformed_timestamp:
  "load_appointments \<lparr>data_file = ''schedule.json'', appointments = []\<rparr>
     (example_world\<lparr>files := (files example_world)(''schedule.json'' \<mapsto>
        Parses (JArray [JObject
          [(''id'', JString ''1''), (''title'', JString ''Dentist''),
           (''start_time'', JString ''tomorrow''),
           (''end_time'', JString ''2025-03-05T10:00:00''),
           (''description'', JString []), (''location'', JString [])]]))\<rparr>)
     = Inl ValueError \<and>
   SchedulingApp ''schedule.json''
     (example_world\<lparr>files := (files example_world)(''schedule.json'' \<mapsto>
        Parses (JArray [JObject
          [(''id'', JString ''1''), (''title'', JString ''Dentist''),
           (''start_time'', JString ''tomorrow''),
           (''end_time'', JString ''2025-03-05T10:00:00''),
           (''description'', JString []), (''location'', JString [])]]))\<rparr>)
     = Inl ValueError"
proof -
  have "fromisoformat ''tomorrow'' = Inl ValueError"
    by (simp add: fromisoformat_def parse_isoformat_date_def)
  then show ?thesis
    by (simp add: SchedulingApp_def load_appointments_def handled_on_load_def iterate_def
        and_then_def from_dict_def subscript_def fromisoformat_value_def)
qed

section \<open>Round trip through the serialised record\<close>

lemma digit_char_props: "n < 10 \<Longrightarrow> is_digit (digit_char n) \<and> digit_val (digit_char n) = n"
proof -
  assume "n < 10"
  then have "n \<in> {0, 1, 2, 3, 4, 5, 6, 7, 8, 9}"
    by auto
  then show ?thesis
    by (auto simp add: digit_char_def is_digit_def digit_val_def)
qed

lemma digits_lt_10: "n < 10 \<Longrightarrow> digits n = [digit_char n]"
  by (simp add: digits.simps)

lemma digits_ge_10: "n \<ge> 10 \<Longrightarrow> digits n = digits (n div 10) @ [digit_char (n mod 10)]"
  by (subst digits.simps) simp

lemma digits_all_digit: "list_all is_digit (digits n)"
proof (induction n rule: digits.induct)
  case (1 n)
  show ?case
  proof (cases "n < 10")
    case True
    then show ?thesis
      by (simp add: digits_lt_10 digit_char_props)
  next
    case False
    then have "list_all is_digit (digits (n div 10))"
      using 1 by simp
    moreover have "is_digit (digit_char (n mod 10))"
      by (simp add: digit_char_props)
    ultimately show ?thesis
      using False by (simp add: digits_ge_10)
  qed
qed

lemma digits_value: "foldl (\<lambda>acc c. 10 * acc + digit_val c) 0 (digits n) = n"
proof (induction n rule: digits.induct)
  case (1 n)
  show ?case
  proof (cases "n < 10")
    case True
    then show ?thesis
      by (simp add: digits_lt_10 digit_char_props)
  next
    case False
    then have "foldl (\<lambda>acc c. 10 * acc + digit_val c) 0 (digits (n div 10)) = n div 10"
      using 1 by simp
    moreover have "digit_val (digit_char (n mod 10)) = n mod 10"
      by (simp add: digit_char_props)
    ultimately show ?thesis
      using False by (simp add: digits_ge_10)
  qed
qed

lemma digits_length: "n < 10 ^ w \<Longrightarrow> 0 < w \<Longrightarrow> length (digits n) \<le> w"
proof (induction n arbitrary: w rule: digits.induct)
  case (1 n)
  show ?case
  proof (cases "n < 10")
    case True
    then show ?thesis
      using "1.prems" by (simp add: digits_lt_10)
  next
    case False
    obtain v where w: "w = Suc v"
      using "1.prems" by (cases w) auto
    have "v \<noteq> 0"
      using False "1.prems" w by (cases v) auto
    moreover have "n div 10 < 10 ^ v"
      using "1.prems" w by (simp add: less_mult_imp_div_less mult.commute)
    ultimately have "length (digits (n div 10)) \<le> v"
      using 1 False by simp
    then show ?thesis
      using False w by (simp add: digits_ge_10)
  qed
qed

lemma digits_not_empty: "digits n \<noteq> []"
  by (subst digits.simps) simp

lemma foldl_leading_zeros:
  "foldl (\<lambda>acc c. 10 * acc + digit_val c) 0 (replicate k (CHR ''0'') @ s) =
   foldl (\<lambda>acc c. 10 * acc + digit_val c) 0 s"
proof -
  have "foldl (\<lambda>acc c. 10 * acc + digit_val c) 0 (replicate k (CHR ''0'')) = 0"
    by (induction k) (simp_all add: digit_val_def)
  then show ?thesis
    by simp
qed

lemma parse_digits_zpad: "parse_digits (zpad w n) = Some n"
proof -
  have "is_digit (CHR ''0'')"
    by (simp add: is_digit_def)
  moreover have "\<forall>c\<in>set (digits n). is_digit c"
    using digits_all_digit [of n] by (simp add: list_all_iff)
  ultimately have "list_all is_digit (zpad w n)"
    by (auto simp add: zpad_def list_all_iff)
  moreover have "zpad w n \<noteq> []"
    by (simp add: zpad_def digits_not_empty)
  moreover have "foldl (\<lambda>acc c. 10 * acc + digit_val c) 0 (zpad w n) = n"
    unfolding zpad_def by (simp only: foldl_leading_zeros digits_value)
  ultimately show ?thesis
    by (simp add: parse_digits_def)
qed

lemma length_zpad: "n < 10 ^ w \<Longrightarrow> 0 < w \<Longrightarrow> length (zpad w n) = w"
  using digits_length [of n w] by (simp add: zpad_def)

lemma parse_isoformat_date_zpad:
  "y < 10000 \<Longrightarrow> m < 100 \<Longrightarrow> d < 100 \<Longrightarrow>
   parse_isoformat_date (zpad 4 y @ ''-'' @ zpad 2 m @ ''-'' @ zpad 2 d) = Some (y, m, d)"
proof -
  assume "y < 10000" and "m < 100" and "d < 100"
  then have len: "length (zpad 4 y) = 4" "length (zpad 2 m) = 2" "length (zpad 2 d) = 2"
    by (simp_all add: length_zpad)
  show ?thesis
    by (simp add: parse_isoformat_date_def len nth_append parse_digits_zpad)
qed

lemma parse_hh_mm_ss_ff_format_time:
  "hh < 100 \<Longrightarrow> mm < 100 \<Longrightarrow> ss < 100 \<Longrightarrow> us < 1000000 \<Longrightarrow>
   parse_hh_mm_ss_ff (format_time hh mm ss us) = Some (hh, mm, ss, us)"
proof -
  assume "hh < 100" and "mm < 100" and "ss < 100" and "us < 1000000"
  then have len: "length (zpad 2 hh) = 2" "length (zpad 2 mm) = 2" "length (zpad 2 ss) = 2"
      "length (zpad 6 us) = 6"
    by (simp_all add: length_zpad)
  show ?thesis
  proof (cases "us = 0")
    case True
    then show ?thesis
      by (simp add: parse_hh_mm_ss_ff_def format_time_def len nth_append parse_digits_zpad)
  next
    case False
    then show ?thesis
      by (simp add: parse_hh_mm_ss_ff_def format_time_def len nth_append parse_digits_zpad)
  qed
qed

lemma days_in_month_le: "m \<le> 12 \<Longrightarrow> days_in_month y m \<le> 31"
proof -
  assume "m \<le> 12"
  then have "m = 0 \<or> m = 1 \<or> m = 2 \<or> m = 3 \<or> m = 4 \<or> m = 5 \<or> m = 6 \<or> m = 7 \<or>
      m = 8 \<or> m = 9 \<or> m = 10 \<or> m = 11 \<or> m = 12"
    by arith
  then show ?thesis
    by (auto simp add: days_in_month_def DAYS_IN_MONTH_def)
qed

text \<open>The text of any timestamp reads back as that timestamp.\<close>

lemma fromisoformat_isoformat: "valid_datetime d \<Longrightarrow> fromisoformat (isoformat d) = Inr d"
proof -
  assume v: "valid_datetime d"
  then have "day d \<le> 31"
    using days_in_month_le [of "month d" "year d"] by (simp add: valid_datetime_def)
  with v have b: "year d < 10000" "month d < 100" "day d < 100" "hour d < 100"
      "minute d < 100" "second d < 100" "microsecond d < 1000000"
    by (simp_all add: valid_datetime_def)
  then have len: "length (zpad 4 (year d)) = 4" "length (zpad 2 (month d)) = 2"
      "length (zpad 2 (day d)) = 2"
    by (simp_all add: length_zpad)
  have tlen: "length (format_time (hour d) (minute d) (second d) (microsecond d)) \<noteq> 0"
    by (simp add: format_time_def)
  have date: "take 10 (isoformat d) =
      zpad 4 (year d) @ ''-'' @ zpad 2 (month d) @ ''-'' @ zpad 2 (day d)"
    by (simp add: isoformat_def len)
  have time: "drop 11 (isoformat d) =
      format_time (hour d) (minute d) (second d) (microsecond d)"
    by (simp add: isoformat_def len)
  have long: "length (isoformat d) \<noteq> 10"
    using tlen by (simp add: isoformat_def len)
  have pd: "parse_isoformat_date (take 10 (isoformat d)) = Some (year d, month d, day d)"
    using b by (simp only: date parse_isoformat_date_zpad)
  have pt: "parse_hh_mm_ss_ff (drop 11 (isoformat d)) =
      Some (hour d, minute d, second d, microsecond d)"
    using b by (simp only: time parse_hh_mm_ss_ff_format_time)
  have "mk_datetime (year d) (month d) (day d) (hour d) (minute d) (second d) (microsecond d)
      = Inr d"
    using v by (simp add: mk_datetime_def)
  then show ?thesis
    by (simp add: fromisoformat_def pd pt long)
qed

text \<open>
  C5.  For an appointment whose two timestamps are values of the \<^verbatim>\<open>datetime\<close> type,
  \<open>from_dict\<close> of its \<open>to_dict\<close> returns an appointment equal to it in all six fields, and
  each timestamp reads back from its ISO 8601 text as itself.
\<close>

theorem from_dict_to_dict:
  "valid_datetime (start_time A) \<Longrightarrow> valid_datetime (end_time A) \<Longrightarrow>
   from_dict (JObject (to_dict A)) = Inr A \<and>
   fromisoformat (isoformat (start_time A)) = Inr (start_time A) \<and>
   fromisoformat (isoformat (end_time A)) = Inr (end_time A)"
  by (simp add: from_dict_def to_dict_def subscript_def dict_get_def and_then_def
      fromisoformat_value_def fromisoformat_isoformat)

theorem from_dict_to_dict_witness:
  "valid_datetime (Datetime 2025 3 5 8 30 0 250000) \<and>
   valid_datetime (Datetime 2025 3 5 9 0 0 0) \<and>
   from_dict (JObject (to_dict
     (example_apt ''1'' (Datetime 2025 3 5 8 30 0 250000) (Datetime 2025 3 5 9 0 0 0)))) =
   Inr (example_apt ''1'' (Datetime 2025 3 5 8 30 0 250000) (Datetime 2025 3 5 9 0 0 0))"
proof -
  have s: "valid_datetime (Datetime 2025 3 5 8 30 0 250000)"
    by (simp add: valid_datetime_def days_in_month_def DAYS_IN_MONTH_def)
  have e: "valid_datetime (Datetime 2025 3 5 9 0 0 0)"
    by (simp add: valid_datetime_def days_in_month_def DAYS_IN_MONTH_def)
  have "from_dict (JObject (to_dict
      (example_apt ''1'' (Datetime 2025 3 5 8 30 0 250000) (Datetime 2025 3 5 9 0 0 0)))) =
    Inr (example_apt ''1'' (Datetime 2025 3 5 8 30 0 250000) (Datetime 2025 3 5 9 0 0 0))"
    using from_dict_to_dict
      [of "example_apt ''1'' (Datetime 2025 3 5 8 30 0 250000) (Datetime 2025 3 5 9 0 0 0)"]
      s e
    by (simp add: example_apt_def)
  with s e show ?thesis
    by simp
qed

section \<open>The calendar\<close>

lemma month_cases:
  "1 \<le> m \<Longrightarrow> m \<le> 12 \<Longrightarrow>
   m = 1 \<or> m = 2 \<or> m = 3 \<or> m = 4 \<or> m = 5 \<or> m = 6 \<or> m = 7 \<or> m = 8 \<or> m = 9 \<or>
   m = 10 \<or> m = 11 \<or> m = (12::nat)"
  by arith

lemmas month_tables = DAYS_BEFORE_MONTH_def DAYS_IN_MONTH_def

lemma days_before_next_month:
  "1 \<le> m \<Longrightarrow> m \<le> 11 \<Longrightarrow>
   DAYS_BEFORE_MONTH ! Suc m = DAYS_BEFORE_MONTH ! m + DAYS_IN_MONTH ! m"
proof -
  assume "1 \<le> m" and "m \<le> 11"
  then have "m = 1 \<or> m = 2 \<or> m = 3 \<or> m = 4 \<or> m = 5 \<or> m = 6 \<or> m = 7 \<or> m = 8 \<or> m = 9 \<or>
      m = 10 \<or> m = 11"
    by arith
  then show ?thesis
    by (elim disjE) (simp_all add: month_tables)
qed

lemma month_estimate:
  assumes "1 \<le> m" "m \<le> 12" "1 \<le> d"
    and "d \<le> DAYS_IN_MONTH ! m + (if m = 2 \<and> leap then 1 else 0)"
  shows "(DAYS_BEFORE_MONTH ! m + (if 2 < m \<and> leap then 1 else 0) + d - 1 + 50) div 32 = m \<or>
         (DAYS_BEFORE_MONTH ! m + (if 2 < m \<and> leap then 1 else 0) + d - 1 + 50) div 32 = Suc m \<and>
           m \<le> 11"
  using month_cases [OF assms(1,2)] assms(3,4)
  by (elim disjE; cases leap; simp add: month_tables; arith)

lemma month_day_correct:
  assumes "1 \<le> m" "m \<le> 12" "1 \<le> d"
    and "d \<le> DAYS_IN_MONTH ! m + (if m = 2 \<and> leap then 1 else 0)"
  shows "month_day leap (DAYS_BEFORE_MONTH ! m + (if 2 < m \<and> leap then 1 else 0) + d - 1) =
         (m, d)"
proof -
  define nd where "nd = DAYS_BEFORE_MONTH ! m + (if 2 < m \<and> leap then 1 else 0) + d - 1"
  have est: "(nd + 50) div 32 = m \<or> (nd + 50) div 32 = Suc m \<and> m \<le> 11"
    unfolding nd_def by (rule month_estimate [OF assms])
  then show ?thesis
  proof
    assume "(nd + 50) div 32 = m"
    then have "month_day leap nd = (m, d)"
      using assms by (simp add: month_day_def Let_def nd_def)
    then show ?thesis
      by (simp add: nd_def)
  next
    assume e: "(nd + 50) div 32 = Suc m \<and> m \<le> 11"
    then have next_month: "DAYS_BEFORE_MONTH ! Suc m = DAYS_BEFORE_MONTH ! m + DAYS_IN_MONTH ! m"
      using assms(1) by (simp add: days_before_next_month)
    have "month_day leap nd = (m, d)"
      using assms e by (auto simp add: month_day_def Let_def next_month nd_def)
    then show ?thesis
      by (simp add: nd_def)
  qed
qed

lemma div_mod_parts: "r < k \<Longrightarrow> (k * q + r) div k = q \<and> (k * q + r) mod k = (r::nat)"
  by simp

lemma year_parts:
  obtains a b c e :: nat where "p = 400 * a + 100 * b + 4 * c + e" "b \<le> 3" "c \<le> 24" "e \<le> 3"
proof
  show "p = 400 * (p div 400) + 100 * (p mod 400 div 100) + 4 * (p mod 400 mod 100 div 4) +
      p mod 400 mod 100 mod 4"
    by simp
  have "p mod 400 < 400" by simp
  then show "p mod 400 div 100 \<le> 3" by arith
  have "p mod 400 mod 100 < 100" by simp
  then show "p mod 400 mod 100 div 4 \<le> 24" by arith
  have "p mod 400 mod 100 mod 4 < 4" by simp
  then show "p mod 400 mod 100 mod 4 \<le> 3" by arith
qed

lemma days_before_year_parts:
  assumes "b \<le> 3" "c \<le> 24" "e \<le> (3::nat)"
  shows "days_before_year (Suc (400 * a + 100 * b + 4 * c + e)) =
         146097 * a + 36524 * b + 1461 * c + 365 * e"
proof -
  let ?p = "400 * a + 100 * b + 4 * c + e"
  have "?p = 4 * (100 * a + 25 * b + c) + e" by simp
  then have d4: "?p div 4 = 100 * a + 25 * b + c"
    using div_mod_parts [of e 4 "100 * a + 25 * b + c"] assms by simp
  have "?p = 100 * (4 * a + b) + (4 * c + e)" by simp
  moreover have "4 * c + e < 100" using assms by simp
  ultimately have d100: "?p div 100 = 4 * a + b"
    using div_mod_parts [of "4 * c + e" 100 "4 * a + b"] by simp
  have "?p = 400 * a + (100 * b + 4 * c + e)" by simp
  moreover have "100 * b + 4 * c + e < 400" using assms by simp
  ultimately have d400: "?p div 400 = a"
    using div_mod_parts [of "100 * b + 4 * c + e" 400 a] by simp
  show ?thesis
    by (simp add: days_before_year_def d4 d100 d400)
qed

lemma mod_eq_0_top: "0 < x \<Longrightarrow> x \<le> k \<Longrightarrow> x mod k = 0 \<longleftrightarrow> x = (k::nat)"
  by (cases "x = k") simp_all

lemma is_leap_parts:
  assumes "b \<le> 3" "c \<le> 24" "e \<le> (3::nat)"
  shows "is_leap (Suc (400 * a + 100 * b + 4 * c + e)) \<longleftrightarrow> e = 3 \<and> (c \<noteq> 24 \<or> b = 3)"
proof -
  let ?y = "Suc (400 * a + 100 * b + 4 * c + e)"
  have "?y = 4 * (100 * a + 25 * b + c) + (e + 1)" by simp
  then have "?y mod 4 = (e + 1) mod 4"
    by (simp only: mod_mult_self4)
  moreover have "(e + 1) mod 4 = 0 \<longleftrightarrow> e + 1 = 4"
    using assms by (intro mod_eq_0_top) simp_all
  ultimately have m4: "?y mod 4 = 0 \<longleftrightarrow> e = 3"
    by simp
  have "?y = 100 * (4 * a + b) + (4 * c + e + 1)" by simp
  then have "?y mod 100 = (4 * c + e + 1) mod 100"
    by (simp only: mod_mult_self4)
  moreover have "(4 * c + e + 1) mod 100 = 0 \<longleftrightarrow> 4 * c + e + 1 = 100"
    using assms by (intro mod_eq_0_top) simp_all
  moreover have "4 * c + e + 1 = 100 \<longleftrightarrow> e = 3 \<and> c = 24"
    using assms by linarith
  ultimately have m100: "?y mod 100 = 0 \<longleftrightarrow> e = 3 \<and> c = 24"
    by simp
  have "?y = 400 * a + (100 * b + 4 * c + e + 1)" by simp
  then have "?y mod 400 = (100 * b + 4 * c + e + 1) mod 400"
    by (simp only: mod_mult_self4)
  moreover have "(100 * b + 4 * c + e + 1) mod 400 = 0 \<longleftrightarrow> 100 * b + 4 * c + e + 1 = 400"
    using assms by (intro mod_eq_0_top) simp_all
  moreover have "100 * b + 4 * c + e + 1 = 400 \<longleftrightarrow> e = 3 \<and> c = 24 \<and> b = 3"
    using assms by linarith
  ultimately have m400: "?y mod 400 = 0 \<longleftrightarrow> e = 3 \<and> c = 24 \<and> b = 3"
    by simp
  show ?thesis
    unfolding is_leap_def m4 m100 m400 by blast
qed

lemma ord2ymd_regular:
  assumes "b \<le> 3" "c \<le> 24" "e \<le> 3" "nd \<le> 364"
  shows "ord2ymd (Suc (146097 * a + 36524 * b + 1461 * c + 365 * e + nd)) =
         (case month_day (e = 3 \<and> (c \<noteq> 24 \<or> b = 3)) nd of
            (m, d) \<Rightarrow> (Suc (400 * a + 100 * b + 4 * c + e), m, d))"
proof -
  define n where "n = 146097 * a + 36524 * b + 1461 * c + 365 * e + nd"
  define na where "na = 36524 * b + 1461 * c + 365 * e + nd"
  define nb where "nb = 1461 * c + 365 * e + nd"
  define nc where "nc = 365 * e + nd"
  have "n = 146097 * a + na" "na < 146097"
    using assms by (simp_all add: n_def na_def)
  then have s400: "n div 146097 = a" "n mod 146097 = na"
    using div_mod_parts [of na 146097 a] by simp_all
  have "na = 36524 * b + nb" "nb < 36524"
    using assms by (simp_all add: na_def nb_def)
  then have s100: "na div 36524 = b" "na mod 36524 = nb"
    using div_mod_parts [of nb 36524 b] by simp_all
  have "nb = 1461 * c + nc" "nc < 1461"
    using assms by (simp_all add: nb_def nc_def)
  then have s4: "nb div 1461 = c" "nb mod 1461 = nc"
    using div_mod_parts [of nc 1461 c] by simp_all
  have "nc = 365 * e + nd" "nd < 365"
    using assms by (simp_all add: nc_def)
  then have s1: "nc div 365 = e" "nc mod 365 = nd"
    using div_mod_parts [of nd 365 e] by simp_all
  have "ord2ymd (Suc n) =
      (case month_day (e = 3 \<and> (c \<noteq> 24 \<or> b = 3)) nd of
         (m, d) \<Rightarrow> (Suc (400 * a + 100 * b + 4 * c + e), m, d))"
    using assms
    by (simp add: ord2ymd_def Let_def DI400Y_def DI100Y_def DI4Y_def s400 s100 s4 s1)
  then show ?thesis
    by (simp only: n_def)
qed

lemma ord2ymd_last_day:
  assumes "b \<le> 3" "c \<le> 24" "c \<noteq> 24 \<or> b = 3"
  shows "ord2ymd (Suc (146097 * a + 36524 * b + 1461 * c + 365 * 3 + 365)) =
         (Suc (400 * a + 100 * b + 4 * c + 3), 12, 31)"
proof (cases "c = 24")
  case False
  define n where "n = 146097 * a + 36524 * b + 1461 * c + 365 * 3 + 365"
  define na where "na = 36524 * b + 1461 * c + 1460"
  define nb where "nb = 1461 * c + 1460"
  have "n = 146097 * a + na" "na < 146097"
    using assms False by (simp_all add: n_def na_def)
  then have s400: "n div 146097 = a" "n mod 146097 = na"
    using div_mod_parts [of na 146097 a] by simp_all
  have "na = 36524 * b + nb" "nb < 36524"
    using assms False by (simp_all add: na_def nb_def)
  then have s100: "na div 36524 = b" "na mod 36524 = nb"
    using div_mod_parts [of nb 36524 b] by simp_all
  have "nb = 1461 * c + 1460"
    by (simp add: nb_def)
  then have s4: "nb div 1461 = c" "nb mod 1461 = 1460"
    using div_mod_parts [of 1460 1461 c] by simp_all
  have "ord2ymd (Suc n) = (Suc (400 * a + 100 * b + 4 * c + 3), 12, 31)"
    by (simp add: ord2ymd_def Let_def DI400Y_def DI100Y_def DI4Y_def s400 s100 s4)
  then show ?thesis
    by (simp only: n_def)
next
  case True
  with assms have b: "b = 3"
    by simp
  define n where "n = 146097 * a + 36524 * b + 1461 * c + 365 * 3 + 365"
  have "n = 146097 * a + 146096"
    using True b by (simp add: n_def)
  then have s400: "n div 146097 = a" "n mod 146097 = 146096"
    using div_mod_parts [of 146096 146097 a] by simp_all
  have "ord2ymd (Suc n) = (Suc (400 * a + 100 * b + 4 * c + 3), 12, 31)"
    using True b by (simp add: ord2ymd_def Let_def DI400Y_def DI100Y_def DI4Y_def s400)
  then show ?thesis
    by (simp only: n_def)
qed

lemma year_offset_bound:
  assumes "1 \<le> m" "m \<le> 12" "1 \<le> d"
    and "d \<le> DAYS_IN_MONTH ! m + (if m = 2 \<and> leap then 1 else 0)"
  shows "DAYS_BEFORE_MONTH ! m + (if 2 < m \<and> leap then 1 else 0) + d - 1 \<le> 364 \<or>
         DAYS_BEFORE_MONTH ! m + (if 2 < m \<and> leap then 1 else 0) + d - 1 = 365 \<and>
           leap \<and> m = 12 \<and> d = 31"
  using month_cases [OF assms(1,2)] assms(3,4)
  by (elim disjE; cases leap; simp add: month_tables; arith)

lemma days_in_month_tables:
  "days_in_month y m = DAYS_IN_MONTH ! m + (if m = 2 \<and> is_leap y then 1 else 0)"
  by (simp add: days_in_month_def month_tables)

text \<open>The calendar functions invert each other on every date of the calendar.\<close>

lemma ord2ymd_ymd2ord:
  assumes "1 \<le> y" "1 \<le> m" "m \<le> 12" "1 \<le> d" "d \<le> days_in_month y m"
  shows "ord2ymd (ymd2ord y m d) = (y, m, d)"
proof -
  obtain a b c e where p: "y - 1 = 400 * a + 100 * b + 4 * c + e"
    and bounds: "b \<le> 3" "c \<le> 24" "e \<le> 3"
    by (rule year_parts)
  have y: "y = Suc (400 * a + 100 * b + 4 * c + e)"
    using p assms(1) by simp
  have leap: "is_leap y \<longleftrightarrow> e = 3 \<and> (c \<noteq> 24 \<or> b = 3)"
    unfolding y by (rule is_leap_parts [OF bounds])
  have dby: "days_before_year y = 146097 * a + 36524 * b + 1461 * c + 365 * e"
    unfolding y by (rule days_before_year_parts [OF bounds])
  define nd where
    "nd = DAYS_BEFORE_MONTH ! m + (if 2 < m \<and> is_leap y then 1 else 0) + d - 1"
  have dim: "d \<le> DAYS_IN_MONTH ! m + (if m = 2 \<and> is_leap y then 1 else 0)"
    using assms(5) by (simp only: days_in_month_tables)
  have ord: "ymd2ord y m d = Suc (146097 * a + 36524 * b + 1461 * c + 365 * e + nd)"
    using assms(4) by (simp add: ymd2ord_def dby days_before_month_def nd_def)
  have md: "month_day (is_leap y) nd = (m, d)"
    unfolding nd_def by (rule month_day_correct [OF assms(2,3,4) dim])
  have "nd \<le> 364 \<or> nd = 365 \<and> is_leap y \<and> m = 12 \<and> d = 31"
    unfolding nd_def by (rule year_offset_bound [OF assms(2,3,4) dim])
  then show ?thesis
  proof
    assume "nd \<le> 364"
    then have "ord2ymd (ymd2ord y m d) =
        (case month_day (e = 3 \<and> (c \<noteq> 24 \<or> b = 3)) nd of
           (m, d) \<Rightarrow> (Suc (400 * a + 100 * b + 4 * c + e), m, d))"
      unfolding ord by (rule ord2ymd_regular [OF bounds])
    moreover have "month_day (e = 3 \<and> (c \<noteq> 24 \<or> b = 3)) nd = (m, d)"
      using md by (simp only: leap)
    ultimately show ?thesis
      by (simp add: y)
  next
    assume last: "nd = 365 \<and> is_leap y \<and> m = 12 \<and> d = 31"
    then have e: "e = 3" and cb: "c \<noteq> 24 \<or> b = 3"
      using leap by simp_all
    have "nd = 365" and "e = 3"
      using last e by simp_all
    then have "ymd2ord y m d = Suc (146097 * a + 36524 * b + 1461 * c + 365 * 3 + 365)"
      by (simp only: ord)
    then have "ord2ymd (ymd2ord y m d) = (Suc (400 * a + 100 * b + 4 * c + 3), 12, 31)"
      by (simp only: ord2ymd_last_day [OF bounds(1,2) cb])
    moreover have "y = Suc (400 * a + 100 * b + 4 * c + 3)"
      using y e by simp
    ultimately show ?thesis
      using last by simp
  qed
qed

lemma days_before_year_Suc:
  assumes "1 \<le> y"
  shows "days_before_year (Suc y) = days_before_year y + 365 + (if is_leap y then 1 else 0)"
proof -
  obtain p where y: "y = Suc p"
    using assms by (cases y) auto
  define q4 q100 q400 where "q4 = p div 4" and "q100 = p div 100" and "q400 = p div 400"
  have c1: "Suc p mod 100 = 0 \<Longrightarrow> Suc p mod 4 = 0"
    by presburger
  have c2: "Suc p mod 400 = 0 \<Longrightarrow> Suc p mod 100 = 0"
    by presburger
  have le: "q100 \<le> q4" "q400 \<le> q100"
    by (simp_all add: div_le_mono2 q4_def q100_def q400_def)
  have s4: "Suc p div 4 = (if Suc p mod 4 = 0 then Suc q4 else q4)"
    by (simp only: div_Suc q4_def)
  have s100: "Suc p div 100 = (if Suc p mod 100 = 0 then Suc q100 else q100)"
    by (simp only: div_Suc q100_def)
  have s400: "Suc p div 400 = (if Suc p mod 400 = 0 then Suc q400 else q400)"
    by (simp only: div_Suc q400_def)
  have a: "days_before_year (Suc (Suc p)) = Suc p * 365 + Suc p div 4 - Suc p div 100 + Suc p div 400"
    by (simp add: days_before_year_def)
  have b: "days_before_year (Suc p) = p * 365 + q4 - q100 + q400"
    by (simp add: days_before_year_def q4_def q100_def q400_def)
  show ?thesis
    unfolding y a b s4 s100 s400 is_leap_def using c1 c2 le
    by (cases "Suc p mod 4 = 0"; cases "Suc p mod 100 = 0"; cases "Suc p mod 400 = 0") simp_all
qed

lemma days_in_month_pos: "1 \<le> m \<Longrightarrow> m \<le> 12 \<Longrightarrow> 1 \<le> days_in_month y m"
  using month_cases [of m] by (auto simp add: days_in_month_def month_tables)


lemma days_before_month_Suc:
  assumes "1 \<le> m" "m \<le> 11"
  shows "days_before_month y (Suc m) = days_before_month y m + days_in_month y m"
proof -
  have "DAYS_IN_MONTH ! 2 = 28"
    by (simp add: month_tables)
  then show ?thesis
    using assms
    by (auto simp add: days_before_month_def days_in_month_def days_before_next_month)
qed


text \<open>The day after a date of the calendar has the next ordinal, and is a date of the calendar.\<close>


lemma ymd2ord_next_day:
  assumes "1 \<le> y" "1 \<le> m" "m \<le> 12" "1 \<le> d" "d \<le> days_in_month y m"
  shows "(case next_day y m d of (y', m', d') \<Rightarrow> ymd2ord y' m' d') = Suc (ymd2ord y m d)"
proof (cases "d < days_in_month y m")
  case True
  then show ?thesis
    by (simp add: next_day_def ymd2ord_def)
next
  case False
  with assms have d: "d = days_in_month y m"
    by simp
  show ?thesis
  proof (cases "m < 12")
    case True
    then have "days_before_month y (Suc m) = days_before_month y m + days_in_month y m"
      using assms by (simp add: days_before_month_Suc)
    then show ?thesis
      using True d by (simp add: next_day_def ymd2ord_def)
  next
    case False
    with assms have m: "m = 12"
      by simp
    have "days_before_year (Suc y) =
        days_before_year y + 365 + (if is_leap y then 1 else 0)"
      using assms by (simp add: days_before_year_Suc)
    then show ?thesis
      using d m
      by (simp add: next_day_def ymd2ord_def days_before_month_def days_in_month_def
          month_tables)
  qed
qed


lemma next_day_valid:
  assumes "1 \<le> y" "1 \<le> m" "m \<le> 12" "1 \<le> d" "d \<le> days_in_month y m"
  shows "case next_day y m d of
           (y', m', d') \<Rightarrow> 1 \<le> y' \<and> 1 \<le> m' \<and> m' \<le> 12 \<and> 1 \<le> d' \<and> d' \<le> days_in_month y' m'"
  using assms days_in_month_pos [of "Suc m" y] days_in_month_pos [of 1 "Suc y"]
  by (simp add: next_day_def)


lemma ord2ymd_next_day:
  assumes "1 \<le> y" "1 \<le> m" "m \<le> 12" "1 \<le> d" "d \<le> days_in_month y m"
  shows "ord2ymd (Suc (ymd2ord y m d)) = next_day y m d"
proof -
  obtain y' m' d' where n: "next_day y m d = (y', m', d')"
    by (cases "next_day y m d") auto
  have "ymd2ord y' m' d' = Suc (ymd2ord y m d)"
    using ymd2ord_next_day [OF assms] by (simp add: n)
  moreover have "1 \<le> y' \<and> 1 \<le> m' \<and> m' \<le> 12 \<and> 1 \<le> d' \<and> d' \<le> days_in_month y' m'"
    using next_day_valid [OF assms] by (simp add: n)
  ultimately show ?thesis
    using ord2ymd_ymd2ord [of y' m' d'] by (simp add: n)
qed


lemma year_length:
  assumes "1 \<le> m" "m \<le> 12" "1 \<le> d" "d \<le> days_in_month y m"
  shows "days_before_month y m + d \<le> 365 + (if is_leap y then 1 else 0) \<and>
         (days_before_month y m + d = 365 + (if is_leap y then 1 else 0) \<longrightarrow> m = 12 \<and> d = 31)"
  using month_cases [OF assms(1,2)] assms(3,4)
  by (elim disjE; cases "is_leap y";
      simp add: days_before_month_def days_in_month_def month_tables)


text \<open>The last ordinal is that of 9999-12-31, and of no other date up to the year 9999.\<close>


lemma ymd2ord_max:
  assumes "1 \<le> y" "y \<le> 9999" "1 \<le> m" "m \<le> 12" "1 \<le> d" "d \<le> days_in_month y m"
  shows "ymd2ord y m d \<le> MAXORDINAL \<and>
         (ymd2ord y m d = MAXORDINAL \<longrightarrow> y = 9999 \<and> m = 12 \<and> d = 31)"
proof (cases "y = 9999")
  case True
  have "days_before_year 9999 = 3651694"
    by (simp add: days_before_year_def)
  moreover have "\<not> is_leap 9999"
    by (simp add: is_leap_def)
  ultimately show ?thesis
    using year_length [OF assms(3,4,5,6)] True
    by (auto simp add: ymd2ord_def MAXORDINAL_def)
next
  case False
  define p where "p = y - 1"
  have p: "p \<le> 9997"
    using assms False by (simp add: p_def)
  then have "p div 4 \<le> 2499"
    by arith
  moreover have "p div 400 \<le> p div 100"
    by (simp add: div_le_mono2)
  moreover have "days_before_year y = p * 365 + p div 4 - p div 100 + p div 400"
    by (simp add: days_before_year_def p_def Let_def)
  ultimately have "days_before_year y \<le> 3651404"
    using p by linarith
  moreover have "days_before_month y m + d \<le> 366"
    using year_length [OF assms(3,4,5,6)] by (simp split: if_splits)
  ultimately have "ymd2ord y m d < MAXORDINAL"
    by (simp add: ymd2ord_def MAXORDINAL_def)
  then show ?thesis
    by simp
qed


text \<open>
  Adding one day to a timestamp: the calendar's next day at the same time of day, and
  \<open>OverflowError\<close> on the last day of the year 9999.
\<close>


lemma datetime_add_one_day:
  assumes "valid_datetime D"
  shows "datetime_add D 1 =
         (if date_of D = (9999, 12, 31) then Inl OverflowError
          else (case next_day (year D) (month D) (day D) of
                  (y, m, d) \<Rightarrow> Inr (Datetime y m d (hour D) (minute D) (second D) (microsecond D))))"
proof -
  have v: "1 \<le> year D" "year D \<le> 9999" "1 \<le> month D" "month D \<le> 12" "1 \<le> day D"
      "day D \<le> days_in_month (year D) (month D)"
    using assms by (simp_all add: valid_datetime_def)
  note top = ymd2ord_max [OF v]
  have days: "nat (int (toordinal D) + 1) = Suc (toordinal D)"
    by simp
  show ?thesis
  proof (cases "date_of D = (9999, 12, 31)")
    case True
    then have "toordinal D = ymd2ord 9999 12 31"
      by (simp add: toordinal_def date_of_def)
    also have "\<dots> = MAXORDINAL"
      by (simp add: ymd2ord_def days_before_year_def days_before_month_def is_leap_def
          month_tables MAXORDINAL_def)
    finally have "\<not> int (toordinal D) + 1 \<le> int MAXORDINAL"
      by simp
    then have "datetime_add D 1 = Inl OverflowError"
      unfolding datetime_add_def Let_def by (simp only: simp_thms if_False)
    then show ?thesis
      using True by (simp only: simp_thms if_True)
  next
    case False
    have "toordinal D \<noteq> MAXORDINAL"
    proof
      assume "toordinal D = MAXORDINAL"
      then have "year D = 9999 \<and> month D = 12 \<and> day D = 31"
        using top unfolding toordinal_def by blast
      then have "date_of D = (9999, 12, 31)"
        unfolding date_of_def by blast
      with False show False
        by blast
    qed
    moreover have "toordinal D \<le> MAXORDINAL"
      using top unfolding toordinal_def by blast
    ultimately have "toordinal D < MAXORDINAL"
      by linarith
    then have range: "0 < int (toordinal D) + 1 \<and> int (toordinal D) + 1 \<le> int MAXORDINAL"
      by simp
    have succ: "ord2ymd (Suc (toordinal D)) = next_day (year D) (month D) (day D)"
      unfolding toordinal_def by (rule ord2ymd_next_day [OF v(1,3,4,5,6)])
    have "datetime_add D 1 =
        (case next_day (year D) (month D) (day D) of
           (y, m, d) \<Rightarrow> Inr (Datetime y m d (hour D) (minute D) (second D) (microsecond D)))"
      unfolding datetime_add_def Let_def by (simp only: range days succ simp_thms if_True)
    then show ?thesis
      using False by (simp only: simp_thms if_False)
  qed
qed

text \<open>
  The window of a day: among the timestamps, those from midnight of a date up to, not
  including, midnight of the next day are those whose own date is that date.
\<close>


lemma day_window:
  assumes "valid_datetime t"
    and "1 \<le> m" "m \<le> 12" "1 \<le> d" "d \<le> days_in_month y m"
  shows "(Datetime y m d 0 0 0 0 \<le> t \<and>
          t < (case next_day y m d of (y', m', d') \<Rightarrow> Datetime y' m' d' 0 0 0 0)) \<longleftrightarrow>
         date_of t = (y, m, d)"
proof -
  have v: "1 \<le> month t" "month t \<le> 12" "1 \<le> day t"
      "day t \<le> days_in_month (year t) (month t)"
    using assms(1) by (simp_all add: valid_datetime_def)
  show ?thesis
    using v assms(2-)
    by (cases "year t = y"; cases "month t = m"; cases "day t = d";
        auto simp add: next_day_def date_of_def datetime_order_defs)
qed

section \<open>The appointments of a day\<close>

lemma get_appointments_for_date_window:
  "datetime_add (replace_midnight D) 1 = Inr end_of_day \<Longrightarrow>
   get_appointments_for_date self D =
     Inr (filter (\<lambda>apt. replace_midnight D \<le> start_time apt \<and> start_time apt < end_of_day)
            (appointments self))"
  by (simp add: get_appointments_for_date_def and_then_def timedelta_def)

lemma get_appointments_for_date_overflow:
  "datetime_add (replace_midnight D) 1 = Inl e \<Longrightarrow> get_appointments_for_date self D = Inl e"
  by (simp add: get_appointments_for_date_def and_then_def timedelta_def)

lemma valid_replace_midnight: "valid_datetime D \<Longrightarrow> valid_datetime (replace_midnight D)"
  by (simp add: valid_datetime_def replace_midnight_def)

text \<open>
  C3, as claimed, fails on the last day of the calendar: for 9999-12-31 the end of the day
  window is not a timestamp, \<open>start_of_day + timedelta(days=1)\<close> raises \<open>OverflowError\<close>, and
  the appointment stored for that day is not returned.
\<close>

theorem get_appointments_for_date_counterexample:
  "valid_datetime (Datetime 9999 12 31 0 0 0 0) \<and>
   get_appointments_for_date
     \<lparr>data_file = ''schedule.json'',
      appointments =
        [example_apt ''1'' (Datetime 9999 12 31 9 0 0 0) (Datetime 9999 12 31 10 0 0 0)]\<rparr>
     (Datetime 9999 12 31 0 0 0 0) = Inl OverflowError"
proof -
  have v: "valid_datetime (Datetime 9999 12 31 0 0 0 0)"
    by (simp add: valid_datetime_def days_in_month_def month_tables)
  have "toordinal (replace_midnight (Datetime 9999 12 31 0 0 0 0)) = MAXORDINAL"
    by (simp add: replace_midnight_def toordinal_def ymd2ord_def days_before_year_def
        days_before_month_def is_leap_def month_tables MAXORDINAL_def)
  then have "datetime_add (replace_midnight (Datetime 9999 12 31 0 0 0 0)) 1 = Inl OverflowError"
    by (simp add: datetime_add_def)
  then show ?thesis
    using v by (simp only: get_appointments_for_date_overflow simp_thms)
qed

text \<open>
  C3, amended.  For every date \<open>D\<close> other than 9999-12-31, \<open>get_appointments_for_date(D)\<close>
  returns, in store order, exactly the stored appointments whose start lies from midnight
  of \<open>D\<close> up to, not including, midnight of the next day.  These are the stored
  appointments whose start has the calendar date of \<open>D\<close>: the end of an appointment plays
  no part, so one that spans midnight is returned for the day it starts on and for no
  other.  The timestamps are values of the \<^verbatim>\<open>datetime\<close> type.
\<close>

theorem get_appointments_for_date_spec:
  assumes "valid_datetime D" and "date_of D \<noteq> (9999, 12, 31)"
    and "\<forall>apt\<in>set (appointments self). valid_datetime (start_time apt)"
  shows "(\<exists>end_of_day.
            datetime_add (replace_midnight D) 1 = Inr end_of_day \<and>
            get_appointments_for_date self D =
              Inr (filter (\<lambda>apt. replace_midnight D \<le> start_time apt \<and>
                                 start_time apt < end_of_day) (appointments self))) \<and>
         get_appointments_for_date self D =
           Inr (filter (\<lambda>apt. date_of (start_time apt) = date_of D) (appointments self))"
proof -
  obtain y m d where n: "next_day (year D) (month D) (day D) = (y, m, d)"
    by (cases "next_day (year D) (month D) (day D)") auto
  define end_of_day where "end_of_day = Datetime y m d 0 0 0 0"
  have v: "1 \<le> month D" "month D \<le> 12" "1 \<le> day D"
      "day D \<le> days_in_month (year D) (month D)"
    using assms(1) by (simp_all add: valid_datetime_def)
  have "date_of (replace_midnight D) \<noteq> (9999, 12, 31)"
    using assms(2) by (simp add: date_of_def replace_midnight_def)
  then have add: "datetime_add (replace_midnight D) 1 = Inr end_of_day"
    using datetime_add_one_day [OF valid_replace_midnight [OF assms(1)]]
    by (simp add: replace_midnight_def n end_of_day_def)
  then have window: "get_appointments_for_date self D =
      Inr (filter (\<lambda>apt. replace_midnight D \<le> start_time apt \<and> start_time apt < end_of_day)
             (appointments self))"
    by (rule get_appointments_for_date_window)
  have "filter (\<lambda>apt. replace_midnight D \<le> start_time apt \<and> start_time apt < end_of_day)
          (appointments self) =
        filter (\<lambda>apt. date_of (start_time apt) = date_of D) (appointments self)"
  proof (rule filter_cong [OF refl])
    fix apt
    assume "apt \<in> set (appointments self)"
    then have "valid_datetime (start_time apt)"
      using assms(3) by blast
    from day_window [OF this v]
    show "(replace_midnight D \<le> start_time apt \<and> start_time apt < end_of_day) \<longleftrightarrow>
        date_of (start_time apt) = date_of D"
      by (simp add: n end_of_day_def replace_midnight_def date_of_def)
  qed
  with add window show ?thesis
    by auto
qed

theorem get_appointments_for_date_spec_witness:
  "valid_datetime (Datetime 2025 1 2 12 30 0 0) \<and>
   date_of (Datetime 2025 1 2 12 30 0 0) \<noteq> (9999, 12, 31) \<and>
   list_all (\<lambda>apt. valid_datetime (start_time apt)) (appointments example_store) \<and>
   get_appointments_for_date example_store (Datetime 2025 1 2 12 30 0 0) =
     Inr [example_apt ''3'' (Datetime 2025 1 2 9 0 0 0) (Datetime 2025 1 2 10 0 0 0)]"
proof -
  have v: "valid_datetime (Datetime 2025 1 2 12 30 0 0)"
    by (simp add: valid_datetime_def days_in_month_def month_tables)
  have d: "date_of (Datetime 2025 1 2 12 30 0 0) \<noteq> (9999, 12, 31)"
    by (simp add: date_of_def)
  have s: "\<forall>apt\<in>set (appointments example_store). valid_datetime (start_time apt)"
    by (simp add: example_store_def example_apt_def valid_datetime_def days_in_month_def
        month_tables)
  have "get_appointments_for_date example_store (Datetime 2025 1 2 12 30 0 0) =
      Inr (filter (\<lambda>apt. date_of (start_time apt) = date_of (Datetime 2025 1 2 12 30 0 0))
             (appointments example_store))"
    using get_appointments_for_date_spec [OF v d s] by (rule conjunct2)
  then have "get_appointments_for_date example_store (Datetime 2025 1 2 12 30 0 0) =
      Inr [example_apt ''3'' (Datetime 2025 1 2 9 0 0 0) (Datetime 2025 1 2 10 0 0 0)]"
    by (simp add: example_store_def example_apt_def date_of_def)
  with v d s show ?thesis
    by (simp add: list_all_iff)
qed

end
